theory Spec2Isabelle
  imports Main "HOL-Library.Word"
begin

unbundle bit_operations_syntax

section \<open>Result and error taxonomy (crypto/common/result.h)\<close>

type_synonym byte = "8 word"
type_synonym bytes = "byte list"

datatype ErrorCode =
    OK | UNKNOWN_ERROR | INVALID_INPUT | INTERNAL_ERROR
  | CRYPTO_ERROR | INVALID_KEY_SIZE | INVALID_IV_SIZE | INVALID_TAG_SIZE
  | INTEGRITY_ERROR | PADDING_ERROR | KEY_GENERATION_FAILED | INVALID_KEY_TYPE
  | SIZE_LIMIT_EXCEEDED | SIGNATURE_INVALID | ENCRYPTION_FAILED | DECRYPTION_FAILED
  | KEY_NOT_FOUND | KEY_DEPRECATED | KEY_ROTATION_FAILED | KEY_EXPIRED | KEY_INVALID_STATE
  | AUTHENTICATION_FAILED | AUTHORIZATION_FAILED | PERMISSION_DENIED
  | SERVICE_UNAVAILABLE | TIMEOUT | NOT_FOUND | KMS_UNAVAILABLE
  | CACHE_MISS | CACHE_ERROR | CACHE_UNAVAILABLE
  | LOGGING_ERROR | LOGGING_UNAVAILABLE
  | CONFIG_ERROR | CONFIG_MISSING | CONFIG_INVALID
  | AUDIT_LOG_FAILED

record Error =
  code :: ErrorCode
  message :: string
  correlation_id :: string

text \<open>\<open>Result<T>\<close> is \<open>std::expected<T, Error>\<close>: \<open>Inl\<close> carries the error, \<open>Inr\<close> the value.\<close>

type_synonym 'a Result = "Error + 'a"

definition mkError :: "ErrorCode \<Rightarrow> string \<Rightarrow> Error" where
  "mkError c msg = \<lparr>code = c, message = msg, correlation_id = ''''\<rparr>"

definition Err :: "ErrorCode \<Rightarrow> string \<Rightarrow> 'a Result" where
  "Err c msg = Inl (mkError c msg)"

section \<open>Input validation (crypto/common/input_validation.h)\<close>

definition MAX_PLAINTEXT_SIZE :: nat where
  "MAX_PLAINTEXT_SIZE = 64 * 1024 * 1024"

definition MAX_CIPHERTEXT_SIZE :: nat where
  "MAX_CIPHERTEXT_SIZE = 64 * 1024 * 1024 + 1024"

definition MAX_AAD_SIZE :: nat where
  "MAX_AAD_SIZE = 64 * 1024"

definition validatePlaintextSize :: "nat \<Rightarrow> unit Result" where
  "validatePlaintextSize sz =
     (if sz > MAX_PLAINTEXT_SIZE
      then Err SIZE_LIMIT_EXCEEDED ''Input exceeds maximum allowed size''
      else Inr ())"

definition validateCiphertextSize :: "nat \<Rightarrow> unit Result" where
  "validateCiphertextSize sz =
     (if sz > MAX_CIPHERTEXT_SIZE
      then Err SIZE_LIMIT_EXCEEDED ''Ciphertext exceeds maximum allowed size''
      else Inr ())"

definition validateAADSize :: "nat \<Rightarrow> unit Result" where
  "validateAADSize sz =
     (if sz > MAX_AAD_SIZE
      then Err SIZE_LIMIT_EXCEEDED ''AAD exceeds maximum allowed size''
      else Inr ())"

definition validateAESKeySize :: "nat \<Rightarrow> unit Result" where
  "validateAESKeySize sz =
     (if sz \<noteq> 16 \<and> sz \<noteq> 32
      then Err INVALID_KEY_SIZE ''AES key must be 128 or 256 bits''
      else Inr ())"

definition validateGCMIVSize :: "nat \<Rightarrow> unit Result" where
  "validateGCMIVSize sz =
     (if sz \<noteq> 12 then Err INVALID_IV_SIZE ''GCM IV must be 96 bits'' else Inr ())"

definition validateGCMTagSize :: "nat \<Rightarrow> unit Result" where
  "validateGCMTagSize sz =
     (if sz \<noteq> 16 then Err INVALID_TAG_SIZE ''GCM tag must be 128 bits'' else Inr ())"

text \<open>\<open>makeSafeError\<close>: the switch over the code, with its default branch.\<close>

definition makeSafeError :: "ErrorCode \<Rightarrow> Error" where
  "makeSafeError c =
     (case c of
        ENCRYPTION_FAILED \<Rightarrow> mkError c ''Encryption operation failed''
      | DECRYPTION_FAILED \<Rightarrow> mkError c ''Decryption operation failed''
      | SIGNATURE_INVALID \<Rightarrow> mkError c ''Signature verification failed''
      | INTEGRITY_ERROR \<Rightarrow> mkError c ''Data integrity verification failed''
      | _ \<Rightarrow> mkError c ''Operation failed'')"

section \<open>PKCS#7 padding (AESEngine, aes\_engine.cpp)\<close>

definition CBC_BLOCK_SIZE :: nat where
  "CBC_BLOCK_SIZE = 16"

text \<open>
  \<open>padded.resize(data.size() + padding_len, static_cast<uint8_t>(padding_len))\<close>:
  the new elements are copies of the padding length, cast to a byte.
\<close>

definition addPKCS7Padding :: "bytes \<Rightarrow> bytes" where
  "addPKCS7Padding data =
     (let padding_len = CBC_BLOCK_SIZE - (length data mod CBC_BLOCK_SIZE)
      in data @ replicate padding_len (of_nat padding_len))"

text \<open>
  The verification loop \<open>for (i = data.size() - padding_len; i < data.size(); ++i)\<close>:
  \<open>True\<close> when it runs to the end, \<open>False\<close> when it returns the padding error.
\<close>

function verify_padding :: "bytes \<Rightarrow> byte \<Rightarrow> nat \<Rightarrow> bool" where
  "verify_padding data padding_len i =
     (if i < length data
      then (if data ! i \<noteq> padding_len then False
            else verify_padding data padding_len (Suc i))
      else True)"
  by pat_completeness auto
termination
  by (relation "measure (\<lambda>(data, p, i). length data - i)") auto

declare verify_padding.simps [simp del]

definition removePKCS7Padding :: "bytes \<Rightarrow> bytes Result" where
  "removePKCS7Padding data =
     (if data = [] then Err PADDING_ERROR ''Empty data''
      else
        let padding_len = last data in
        if padding_len = 0 \<or> unat padding_len > CBC_BLOCK_SIZE
           \<or> unat padding_len > length data
        then Err PADDING_ERROR ''Invalid padding length''
        else if \<not> verify_padding data padding_len (length data - unat padding_len)
        then Err PADDING_ERROR ''Invalid padding bytes''
        else Inr (take (length data - unat padding_len) data))"

section \<open>W3C trace context (crypto/metrics/tracing.cpp)\<close>

record TraceContext =
  trace_id :: string
  span_id :: string
  parent_span_id :: string
  sampled :: bool
  tracestate :: "(string \<times> string) list"

text \<open>The default-constructed context: empty strings, \<open>sampled = true\<close>.\<close>

definition default_TraceContext :: TraceContext where
  "default_TraceContext =
     \<lparr>trace_id = '''', span_id = '''', parent_span_id = '''', sampled = True, tracestate = []\<rparr>"

text \<open>
  \<open>std::string::substr(pos, n)\<close> throws \<open>std::out_of_range\<close> when \<open>pos > size()\<close>
  (\<open>None\<close> here) and otherwise returns at most \<open>n\<close> characters from \<open>pos\<close>.
  \<open>operator[]\<close> at \<open>size()\<close> reads the terminating null character.
\<close>

definition substr :: "string \<Rightarrow> nat \<Rightarrow> nat \<Rightarrow> string option" where
  "substr s pos n = (if pos > length s then None else Some (take n (drop pos s)))"

definition string_at :: "string \<Rightarrow> nat \<Rightarrow> char" where
  "string_at s i = (if i < length s then s ! i else CHR 0x00)"

definition all_zero_chars :: "string \<Rightarrow> bool" where
  "all_zero_chars s = list_all (\<lambda>c. c = CHR ''0'') s"

text \<open>
  The outcome of \<open>TraceContext::parse\<close>: an escaping \<open>std::out_of_range\<close>,
  \<open>std::nullopt\<close>, or a context.
\<close>

datatype parse_outcome = OutOfRange | Nullopt | Parsed TraceContext

definition TraceContext_parse :: "string \<Rightarrow> parse_outcome" where
  "TraceContext_parse traceparent =
     (if length traceparent < 55 then Nullopt
      else if string_at traceparent 0 \<noteq> CHR ''0'' \<or> string_at traceparent 1 \<noteq> CHR ''0''
              \<or> string_at traceparent 2 \<noteq> CHR ''-'' then Nullopt
      else
        (let pos = 3 in
         (case substr traceparent pos 32 of
            None \<Rightarrow> OutOfRange
          | Some tid \<Rightarrow>
             (if length tid \<noteq> 32 then Nullopt
              else if all_zero_chars tid then Nullopt
              else
                (let pos = pos + 33 in
                 (case substr traceparent pos 16 of
                    None \<Rightarrow> OutOfRange
                  | Some sid \<Rightarrow>
                     (if length sid \<noteq> 16 then Nullopt
                      else if all_zero_chars sid then Nullopt
                      else
                        (let pos = pos + 17;
                             ctx = default_TraceContext\<lparr>trace_id := tid, span_id := sid\<rparr> in
                         if pos + 2 \<le> length traceparent
                         then (case substr traceparent pos 2 of
                                 None \<Rightarrow> OutOfRange
                               | Some flags \<Rightarrow>
                                   Parsed (ctx\<lparr>sampled := (string_at flags 1 = CHR ''1'')\<rparr>))
                         else Parsed ctx))))))))"

section \<open>AES-GCM engine (crypto/engine/aes\_engine.cpp)\<close>

record EncryptResult =
  ciphertext :: bytes
  iv :: bytes
  tag :: bytes

text \<open>
  OpenSSL is not part of the repository, so the EVP cipher is a parameter of the model.
  \<open>evp_seal key iv aad plaintext\<close> stands for the call sequence
  \<open>EVP_CIPHER_CTX_new, EVP_EncryptInit_ex, EVP_CIPHER_CTX_ctrl(SET_IVLEN),
  EVP_EncryptInit_ex, EVP_EncryptUpdate (aad), EVP_EncryptUpdate, EVP_EncryptFinal_ex,
  EVP_CIPHER_CTX_ctrl(GET_TAG)\<close>: \<open>None\<close> when one of them does not return 1 (every such
  branch of the source returns the same error), otherwise the ciphertext bytes and the tag
  bytes.  \<open>evp_open key iv aad ciphertext tag\<close> stands for the decrypting sequence, which
  the source splits in two: a call before \<open>EVP_DecryptFinal_ex\<close> failed, the final call
  returned \<open>\<le> 0\<close> (the tag did not verify), or the plaintext.
\<close>

datatype evp_open_result = EvpCallFailed | EvpFinalFailed | EvpOpened bytes

record evp_backend =
  evp_seal :: "bytes \<Rightarrow> bytes \<Rightarrow> bytes \<Rightarrow> bytes \<Rightarrow> (bytes \<times> bytes) option"
  evp_open :: "bytes \<Rightarrow> bytes \<Rightarrow> bytes \<Rightarrow> bytes \<Rightarrow> bytes \<Rightarrow> evp_open_result"

text \<open>The calls into OpenSSL that a run makes, in order.\<close>

datatype ext_call = RAND_bytes nat | EVP_encrypt | EVP_decrypt

definition GCM_IV_SIZE :: nat where
  "GCM_IV_SIZE = 12"

definition GCM_TAG_SIZE :: nat where
  "GCM_TAG_SIZE = 16"

text \<open>
  A library call that writes into a buffer the caller allocated (\<open>std::vector<uint8_t>
  iv(size)\<close>, \<open>tag(TAG_SIZE)\<close>): the buffer keeps its length whatever the library
  delivers.
\<close>

definition fill_buffer :: "bytes \<Rightarrow> bytes \<Rightarrow> bytes" where
  "fill_buffer buf src = take (length buf) src @ drop (length src) buf"

text \<open>
  \<open>generateIV\<close>: the first argument is what \<open>RAND_bytes\<close> did, \<open>None\<close> when it
  did not return 1.
\<close>

definition generateIV :: "bytes option \<Rightarrow> nat \<Rightarrow> bytes Result" where
  "generateIV rnd sz =
     (case rnd of
        None \<Rightarrow> Err CRYPTO_ERROR ''Failed to generate random IV''
      | Some r \<Rightarrow> Inr (fill_buffer (replicate sz 0) r))"

text \<open>\<open>getGCMCipher\<close> returns a cipher for 16 and 32 byte keys and \<open>nullptr\<close> otherwise.\<close>

definition getGCMCipher :: "nat \<Rightarrow> bool" where
  "getGCMCipher key_size = (key_size = 16 \<or> key_size = 32)"

text \<open>
  The idiom \<open>if (auto result = validate...(n); !result) return Err<T>(result.error());\<close>:
  the error is passed on before anything else runs.
\<close>

definition guard :: "unit Result \<Rightarrow> 'a Result \<times> ext_call list \<Rightarrow> 'a Result \<times> ext_call list" where
  "guard v rest = (case v of Inl e \<Rightarrow> (Inl e, []) | Inr u \<Rightarrow> rest)"

definition encryptGCMWithIV_traced ::
  "evp_backend \<Rightarrow> bytes \<Rightarrow> bytes \<Rightarrow> bytes \<Rightarrow> bytes \<Rightarrow> EncryptResult Result \<times> ext_call list" where
  "encryptGCMWithIV_traced evp plaintext key iv_in aad =
     guard (validatePlaintextSize (length plaintext))
    (guard (validateAADSize (length aad))
    (guard (validateAESKeySize (length key))
    (guard (validateGCMIVSize (length iv_in))
      (if \<not> getGCMCipher (length key) then (Inl (makeSafeError ENCRYPTION_FAILED), [])
       else
         (case evp_seal evp key iv_in aad plaintext of
            None \<Rightarrow> (Inl (makeSafeError ENCRYPTION_FAILED), [EVP_encrypt])
          | Some (c, t) \<Rightarrow>
              (Inr \<lparr>ciphertext = c, iv = iv_in,
                    tag = fill_buffer (replicate GCM_TAG_SIZE 0) t\<rparr>, [EVP_encrypt]))))))"

definition encryptGCM_traced ::
  "evp_backend \<Rightarrow> bytes option \<Rightarrow> bytes \<Rightarrow> bytes \<Rightarrow> bytes \<Rightarrow> EncryptResult Result \<times> ext_call list" where
  "encryptGCM_traced evp rnd plaintext key aad =
     (case generateIV rnd GCM_IV_SIZE of
        Inl e \<Rightarrow> (Inl e, [RAND_bytes GCM_IV_SIZE])
      | Inr iv_result \<Rightarrow>
          (case encryptGCMWithIV_traced evp plaintext key iv_result aad of
             (r, calls) \<Rightarrow> (r, RAND_bytes GCM_IV_SIZE # calls)))"

definition decryptGCM_traced ::
  "evp_backend \<Rightarrow> bytes \<Rightarrow> bytes \<Rightarrow> bytes \<Rightarrow> bytes \<Rightarrow> bytes \<Rightarrow> bytes Result \<times> ext_call list" where
  "decryptGCM_traced evp ciphertext_in key iv_in tag_in aad =
     guard (validateCiphertextSize (length ciphertext_in))
    (guard (validateAADSize (length aad))
    (guard (validateAESKeySize (length key))
    (guard (validateGCMIVSize (length iv_in))
    (guard (validateGCMTagSize (length tag_in))
      (if \<not> getGCMCipher (length key) then (Inl (makeSafeError DECRYPTION_FAILED), [])
       else
         (case evp_open evp key iv_in aad ciphertext_in tag_in of
            EvpCallFailed \<Rightarrow> (Inl (makeSafeError DECRYPTION_FAILED), [EVP_decrypt])
          | EvpFinalFailed \<Rightarrow> (Inl (makeSafeError INTEGRITY_ERROR), [EVP_decrypt])
          | EvpOpened p \<Rightarrow> (Inr p, [EVP_decrypt])))))))"

text \<open>The results alone, as the callers see them.\<close>

definition encryptGCMWithIV ::
  "evp_backend \<Rightarrow> bytes \<Rightarrow> bytes \<Rightarrow> bytes \<Rightarrow> bytes \<Rightarrow> EncryptResult Result" where
  "encryptGCMWithIV evp plaintext key iv_in aad =
     fst (encryptGCMWithIV_traced evp plaintext key iv_in aad)"

definition encryptGCM ::
  "evp_backend \<Rightarrow> bytes option \<Rightarrow> bytes \<Rightarrow> bytes \<Rightarrow> bytes \<Rightarrow> EncryptResult Result" where
  "encryptGCM evp rnd plaintext key aad = fst (encryptGCM_traced evp rnd plaintext key aad)"

definition decryptGCM ::
  "evp_backend \<Rightarrow> bytes \<Rightarrow> bytes \<Rightarrow> bytes \<Rightarrow> bytes \<Rightarrow> bytes \<Rightarrow> bytes Result" where
  "decryptGCM evp ciphertext_in key iv_in tag_in aad =
     fst (decryptGCM_traced evp ciphertext_in key iv_in tag_in aad)"

subsection \<open>What is asked of the EVP cipher\<close>

text \<open>
  The round-trip contract of an AEAD: what was sealed opens to the same plaintext under
  the same key, IV and AAD, the ciphertext is as long as the plaintext (GCM is a stream
  mode) and the tag written into the 16-byte buffer is the one that verifies.
\<close>

definition evp_roundtrip :: "evp_backend \<Rightarrow> bool" where
  "evp_roundtrip evp =
     (\<forall>k n a p c t. evp_seal evp k n a p = Some (c, t) \<longrightarrow>
        length c = length p \<and>
        evp_open evp k n a c (fill_buffer (replicate GCM_TAG_SIZE 0) t) = EvpOpened p)"

text \<open>Flipping bit \<open>i\<close> (counted from the least significant bit of byte 0) of a buffer.\<close>

definition flip_bit_at :: "nat \<Rightarrow> bytes \<Rightarrow> bytes" where
  "flip_bit_at i xs = xs[i div 8 := (xs ! (i div 8)) XOR (push_bit (i mod 8) 1)]"

datatype gcm_field = Field_ciphertext | Field_iv | Field_tag | Field_aad

text \<open>The decryption request \<open>(ciphertext, iv, tag, aad)\<close> with one bit of one field flipped.\<close>

fun tamper :: "gcm_field \<Rightarrow> nat \<Rightarrow> bytes \<times> bytes \<times> bytes \<times> bytes \<Rightarrow> bytes \<times> bytes \<times> bytes \<times> bytes" where
  "tamper Field_ciphertext i (c, n, t, a) = (flip_bit_at i c, n, t, a)"
| "tamper Field_iv i (c, n, t, a) = (c, flip_bit_at i n, t, a)"
| "tamper Field_tag i (c, n, t, a) = (c, n, flip_bit_at i t, a)"
| "tamper Field_aad i (c, n, t, a) = (c, n, t, flip_bit_at i a)"

fun field_bits :: "gcm_field \<Rightarrow> bytes \<times> bytes \<times> bytes \<times> bytes \<Rightarrow> nat" where
  "field_bits Field_ciphertext (c, n, t, a) = 8 * length c"
| "field_bits Field_iv (c, n, t, a) = 8 * length n"
| "field_bits Field_tag (c, n, t, a) = 8 * length t"
| "field_bits Field_aad (c, n, t, a) = 8 * length a"

text \<open>
  The authentication contract of an AEAD, for single-bit changes: after a successful
  seal, the final call rejects every request that differs from the sealed one in one bit
  of the ciphertext, IV, tag or AAD.
\<close>

definition evp_detects_bit_flips :: "evp_backend \<Rightarrow> bool" where
  "evp_detects_bit_flips evp =
     (\<forall>k n a p c t f i c' n' t' a'.
        evp_seal evp k n a p = Some (c, t) \<longrightarrow>
        i < field_bits f (c, n, fill_buffer (replicate GCM_TAG_SIZE 0) t, a) \<longrightarrow>
        tamper f i (c, n, fill_buffer (replicate GCM_TAG_SIZE 0) t, a) = (c', n', t', a') \<longrightarrow>
        evp_open evp k n' a' c' t' = EvpFinalFailed)"

subsection \<open>A small AEAD to run the model on\<close>

text \<open>
  A stand-in cipher for concrete runs: the ciphertext is the plaintext with every byte
  XORed with \<open>0x5A\<close>, the tag is the XOR of all bytes of key, IV, AAD and ciphertext,
  followed by 15 zero bytes.
\<close>

definition xor_sum :: "bytes \<Rightarrow> byte" where
  "xor_sum xs = foldr (XOR) xs 0"

definition toy_tag :: "bytes \<Rightarrow> bytes \<Rightarrow> bytes \<Rightarrow> bytes \<Rightarrow> bytes" where
  "toy_tag k n a c = xor_sum (k @ n @ a @ c) # replicate 15 0"

definition toy_mask :: "bytes \<Rightarrow> bytes" where
  "toy_mask p = map (\<lambda>b. b XOR 0x5A) p"

definition toy_evp :: evp_backend where
  "toy_evp =
     \<lparr>evp_seal = (\<lambda>k n a p. Some (toy_mask p, toy_tag k n a (toy_mask p))),
      evp_open = (\<lambda>k n a c t.
         if t = toy_tag k n a c then EvpOpened (toy_mask c) else EvpFinalFailed)\<rparr>"

section \<open>Key identifiers and metadata (crypto/keys/key\_types.cpp)\<close>

datatype KeyAlgorithm =
    AES_128_GCM | AES_256_GCM | AES_128_CBC | AES_256_CBC
  | RSA_2048 | RSA_3072 | RSA_4096
  | ECDSA_P256 | ECDSA_P384 | ECDSA_P521

datatype KeyType = SYMMETRIC | ASYMMETRIC_PUBLIC | ASYMMETRIC_PRIVATE

datatype KeyState = PENDING_ACTIVATION | ACTIVE | DEPRECATED | PENDING_DESTRUCTION | DESTROYED

text \<open>
  \<open>struct KeyId { std::string namespace_prefix; std::string id; uint32_t version; }\<close>.
  The field \<open>id\<close> is written \<open>id'\<close>, since \<open>id\<close> is the identity function of HOL.
\<close>

record KeyId =
  namespace_prefix :: string
  id' :: string
  version :: "32 word"

text \<open>The default constructor \<open>KeyId() : version(1) {}\<close>.\<close>

definition default_KeyId :: KeyId where
  "default_KeyId = \<lparr>namespace_prefix = '''', id' = '''', version = 1\<rparr>"

text \<open>\<open>std::to_string\<close> of an unsigned value: its decimal digits, most significant first.\<close>

definition digit_char :: "nat \<Rightarrow> char" where
  "digit_char d = char_of (48 + d)"

fun to_string :: "nat \<Rightarrow> string" where
  "to_string n = (if n < 10 then [digit_char n] else to_string (n div 10) @ [digit_char (n mod 10)])"

declare to_string.simps [simp del]

definition KeyId_toString :: "KeyId \<Rightarrow> string" where
  "KeyId_toString k =
     namespace_prefix k @ '':'' @ id' k @ '':'' @ to_string (unat (version k))"

text \<open>
  The loop \<open>while (std::getline(iss, part, ':')) parts.push_back(part);\<close>, one character
  at a time: \<open>cur\<close> holds the characters of the current part in reverse.  At the end of
  the input \<open>getline\<close> succeeds only if it extracted something, so a part that is empty
  and not closed by a colon is not pushed.
\<close>

fun getline_parts :: "string \<Rightarrow> string \<Rightarrow> string list" where
  "getline_parts [] cur = (if cur = [] then [] else [rev cur])"
| "getline_parts (c # cs) cur =
     (if c = CHR '':'' then rev cur # getline_parts cs [] else getline_parts cs (c # cur))"

text \<open>
  \<open>std::stoul(str)\<close> (base 10) on a platform whose \<open>unsigned long\<close> has 64 bits:
  leading white space is skipped, one sign is accepted, the longest run of decimal digits
  is converted and what follows is ignored.  \<open>None\<close> stands for the two exceptions,
  \<open>std::invalid_argument\<close> (no digit) and \<open>std::out_of_range\<close> (more than
  \<open>ULONG_MAX\<close>); a minus sign negates the value as an unsigned long.
\<close>

definition is_space :: "char \<Rightarrow> bool" where
  "is_space c = (of_char c \<in> {9, 10, 11, 12, 13, 32 :: nat})"

definition is_digit :: "char \<Rightarrow> bool" where
  "is_digit c = (48 \<le> (of_char c :: nat) \<and> (of_char c :: nat) \<le> 57)"

definition digit_value :: "char \<Rightarrow> nat" where
  "digit_value c = of_char c - 48"

definition decimal_value :: "string \<Rightarrow> nat" where
  "decimal_value ds = foldl (\<lambda>acc c. acc * 10 + digit_value c) 0 ds"

definition ULONG_MAX :: nat where
  "ULONG_MAX = 2 ^ 64 - 1"

definition stoul :: "string \<Rightarrow> nat option" where
  "stoul str =
     (let s1 = dropWhile is_space str;
          negative = (s1 \<noteq> [] \<and> hd s1 = CHR ''-'');
          s2 = (if s1 \<noteq> [] \<and> (hd s1 = CHR ''-'' \<or> hd s1 = CHR ''+'') then tl s1 else s1);
          ds = takeWhile is_digit s2
      in if ds = [] then None
         else if decimal_value ds > ULONG_MAX then None
         else Some (if negative then (2 ^ 64 - decimal_value ds) mod 2 ^ 64
                    else decimal_value ds))"

text \<open>
  \<open>KeyId::parse\<close>: \<open>uint32_t version = std::stoul(parts[2])\<close> keeps the low 32 bits;
  \<open>catch (...)\<close> turns both exceptions into the same error.
\<close>

definition KeyId_parse :: "string \<Rightarrow> KeyId Result" where
  "KeyId_parse str =
     (let parts = getline_parts str [] in
      if length parts \<noteq> 3 then Err INVALID_INPUT ''Invalid KeyId format''
      else
        (case stoul (parts ! 2) of
           None \<Rightarrow> Err INVALID_INPUT ''Invalid version number''
         | Some v \<Rightarrow>
             Inr \<lparr>namespace_prefix = parts ! 0, id' = parts ! 1, version = of_nat v\<rparr>))"

definition KeyId_isValid :: "KeyId \<Rightarrow> bool" where
  "KeyId_isValid k = (namespace_prefix k \<noteq> [] \<and> id' k \<noteq> [] \<and> version k > 0)"

text \<open>
  The canonical textual form of a UUID: 36 characters, hyphens at positions 8, 13, 18
  and 23, hexadecimal digits elsewhere.
\<close>

definition is_hex_digit :: "char \<Rightarrow> bool" where
  "is_hex_digit c =
     (let n = (of_char c :: nat) in
      (48 \<le> n \<and> n \<le> 57) \<or> (97 \<le> n \<and> n \<le> 102) \<or> (65 \<le> n \<and> n \<le> 70))"

definition is_canonical_uuid :: "string \<Rightarrow> bool" where
  "is_canonical_uuid u =
     (length u = 36 \<and>
      (\<forall>i < 36. if i \<in> {8, 13, 18, 23} then u ! i = CHR ''-'' else is_hex_digit (u ! i)))"

text \<open>\<open>KeyMetadata\<close>: time points are ticks of the system clock (nanoseconds).\<close>

record KeyMetadata =
  meta_id :: KeyId
  algorithm :: KeyAlgorithm
  key_type :: KeyType
  state :: KeyState
  created_at :: int
  expires_at :: int
  rotated_at :: "int option"
  previous_version :: "KeyId option"
  owner_service :: string
  allowed_operations :: "string list"
  usage_count :: "64 word"




record EncryptedKey =
  encrypted_material :: bytes
  ek_iv :: bytes
  ek_tag :: bytes
  kek_id :: KeyId
  metadata :: KeyMetadata



section \<open>Key stores (crypto/keys/key\_store.h, key\_store.cpp)\<close>

text \<open>
  \<open>IKeyStore\<close> is an abstract class; \<open>KeyService\<close> holds a pointer to one.  A store is
  a state of some type \<open>'s\<close> with the operations the key service calls, each returning
  its result and, where it writes, the new state.
\<close>

record 's IKeyStore =
  ks_store :: "KeyId \<Rightarrow> EncryptedKey \<Rightarrow> 's \<Rightarrow> unit Result \<times> 's"
  ks_retrieve :: "KeyId \<Rightarrow> 's \<Rightarrow> EncryptedKey Result"
  ks_remove :: "KeyId \<Rightarrow> 's \<Rightarrow> unit Result \<times> 's"
  ks_updateMetadata :: "KeyId \<Rightarrow> KeyMetadata \<Rightarrow> 's \<Rightarrow> unit Result \<times> 's"

text \<open>\<open>InMemoryKeyStore\<close>: an \<open>unordered_map\<close> from \<open>id.toString()\<close> to the record.\<close>

type_synonym mem_store = "string \<rightharpoonup> EncryptedKey"

definition InMemoryKeyStore_store :: "KeyId \<Rightarrow> EncryptedKey \<Rightarrow> mem_store \<Rightarrow> unit Result \<times> mem_store" where
  "InMemoryKeyStore_store k key keys = (Inr (), keys(KeyId_toString k \<mapsto> key))"

definition InMemoryKeyStore_retrieve :: "KeyId \<Rightarrow> mem_store \<Rightarrow> EncryptedKey Result" where
  "InMemoryKeyStore_retrieve k keys =
     (case keys (KeyId_toString k) of
        None \<Rightarrow> Err KEY_NOT_FOUND (''Key not found: '' @ KeyId_toString k)
      | Some key \<Rightarrow> Inr key)"

definition InMemoryKeyStore_remove :: "KeyId \<Rightarrow> mem_store \<Rightarrow> unit Result \<times> mem_store" where
  "InMemoryKeyStore_remove k keys =
     (case keys (KeyId_toString k) of
        None \<Rightarrow> (Err KEY_NOT_FOUND (''Key not found: '' @ KeyId_toString k), keys)
      | Some key \<Rightarrow> (Inr (), keys(KeyId_toString k := None)))"

definition InMemoryKeyStore_updateMetadata ::
  "KeyId \<Rightarrow> KeyMetadata \<Rightarrow> mem_store \<Rightarrow> unit Result \<times> mem_store" where
  "InMemoryKeyStore_updateMetadata k md keys =
     (case keys (KeyId_toString k) of
        None \<Rightarrow> (Err KEY_NOT_FOUND (''Key not found: '' @ KeyId_toString k), keys)
      | Some key \<Rightarrow> (Inr (), keys(KeyId_toString k \<mapsto> key\<lparr>metadata := md\<rparr>)))"

definition InMemoryKeyStore :: "mem_store IKeyStore" where
  "InMemoryKeyStore =
     \<lparr>ks_store = InMemoryKeyStore_store, ks_retrieve = InMemoryKeyStore_retrieve,
      ks_remove = InMemoryKeyStore_remove, ks_updateMetadata = InMemoryKeyStore_updateMetadata\<rparr>"

text \<open>
  A second implementation of the interface, to run the failure paths of the key service:
  the in-memory store together with a list of write-protected keys, whose metadata
  update fails (as \<open>LocalKeyStore::store\<close> fails with \<open>INTERNAL_ERROR\<close> on a key file it
  cannot open for writing).
\<close>

type_synonym guarded_store = "mem_store \<times> string list"

definition GuardedKeyStore :: "guarded_store IKeyStore" where
  "GuardedKeyStore =
     \<lparr>ks_store = (\<lambda>k key (keys, ro).
         (case InMemoryKeyStore_store k key keys of (r, keys') \<Rightarrow> (r, (keys', ro)))),
      ks_retrieve = (\<lambda>k (keys, ro). InMemoryKeyStore_retrieve k keys),
      ks_remove = (\<lambda>k (keys, ro).
         (case InMemoryKeyStore_remove k keys of (r, keys') \<Rightarrow> (r, (keys', ro)))),
      ks_updateMetadata = (\<lambda>k md (keys, ro).
         if KeyId_toString k \<in> set ro
         then (Err INTERNAL_ERROR ''Failed to open file for writing'', (keys, ro))
         else (case InMemoryKeyStore_updateMetadata k md keys of (r, keys') \<Rightarrow> (r, (keys', ro))))\<rparr>"


section \<open>Key service (crypto/keys/key\_service.cpp)\<close>

text \<open>
  The cache client is modelled by the map it keeps from cache key to bytes, \<open>None\<close>
  when \<open>cache_client_\<close> is a null pointer.  The key service ignores every error of the
  cache, so a cache that fails is not told apart from one that misses.
\<close>

type_synonym key_cache = "(string \<rightharpoonup> bytes) option"


definition CACHE_KEY_PREFIX :: string where
  "CACHE_KEY_PREFIX = ''keymaterial:''"


definition getCachedKeyMaterial :: "key_cache \<Rightarrow> KeyId \<Rightarrow> bytes option" where
  "getCachedKeyMaterial cache k =
     (case cache of None \<Rightarrow> None | Some m \<Rightarrow> m (CACHE_KEY_PREFIX @ KeyId_toString k))"

definition invalidateCachedKey :: "key_cache \<Rightarrow> KeyId \<Rightarrow> key_cache" where
  "invalidateCachedKey cache k =
     (case cache of
        None \<Rightarrow> None
      | Some m \<Rightarrow> Some (m(CACHE_KEY_PREFIX @ KeyId_toString k := None)))"




definition decryptKeyMaterial :: "evp_backend \<Rightarrow> bytes \<Rightarrow> EncryptedKey \<Rightarrow> bytes Result" where
  "decryptKeyMaterial evp master_key ek =
     decryptGCM evp (encrypted_material ek) master_key (ek_iv ek) (ek_tag ek) []"









section \<open>File envelope (crypto/services/file\_encryption\_service.cpp)\<close>

record FileEncryptionHeader =
  magic :: "32 word"
  hdr_version :: "16 word"
  hdr_algorithm :: "16 word"
  key_id :: KeyId
  wrapped_dek :: bytes
  hdr_iv :: bytes
  hdr_tag :: bytes
  original_size :: "64 word"
  chunk_size :: "32 word"

definition MAGIC :: "32 word" where
  "MAGIC = 0x43525950"

definition VERSION :: "16 word" where
  "VERSION = 1"

definition write_u32 :: "32 word \<Rightarrow> bytes" where
  "write_u32 v =
     [ucast (v AND 0xFF), ucast (drop_bit 8 v AND 0xFF),
      ucast (drop_bit 16 v AND 0xFF), ucast (drop_bit 24 v AND 0xFF)]"

definition write_u16 :: "16 word \<Rightarrow> bytes" where
  "write_u16 v = [ucast (v AND 0xFF), ucast (drop_bit 8 v AND 0xFF)]"

definition write_u64 :: "64 word \<Rightarrow> bytes" where
  "write_u64 v = map (\<lambda>i. ucast (drop_bit (i * 8) v AND 0xFF)) [0..<8]"

definition write_bytes :: "bytes \<Rightarrow> bytes" where
  "write_bytes data = write_u32 (of_nat (length data)) @ data"

text \<open>The characters of a \<open>std::string\<close> as the bytes they are.\<close>

definition string_bytes :: "string \<Rightarrow> bytes" where
  "string_bytes s = map (\<lambda>c. of_nat (of_char c)) s"

definition serialize :: "FileEncryptionHeader \<Rightarrow> bytes" where
  "serialize h =
     write_u32 (magic h) @ write_u16 (hdr_version h) @ write_u16 (hdr_algorithm h)
     @ (let key_str = KeyId_toString (key_id h) in
        write_u32 (of_nat (length key_str)) @ string_bytes key_str)
     @ write_bytes (wrapped_dek h) @ write_bytes (hdr_iv h) @ write_bytes (hdr_tag h)
     @ write_u64 (original_size h) @ write_u32 (chunk_size h)"

text \<open>
  \<open>output.write(reinterpret_cast<const char*>(&header_size), sizeof(header_size))\<close>
  writes the four bytes of the integer in the byte order of the machine.
\<close>

datatype byte_order = LittleEndian | BigEndian

definition native_u32 :: "byte_order \<Rightarrow> 32 word \<Rightarrow> bytes" where
  "native_u32 bo v = (case bo of LittleEndian \<Rightarrow> write_u32 v | BigEndian \<Rightarrow> rev (write_u32 v))"

text \<open>
  What a call of \<open>encryptStream\<close> draws from outside: the cipher, the three outcomes of
  the random generator (DEK, IV of the wrapping, IV of the payload), the key material
  that the key service returns for the KEK, the configured chunk size and the byte order
  of the machine.
\<close>

record fes_env =
  fes_evp :: evp_backend
  dek_rand :: "bytes option"
  wrap_iv_rand :: "bytes option"
  data_iv_rand :: "bytes option"
  kek_material :: "KeyId \<Rightarrow> bytes Result"
  chunk_size_cfg :: nat
  host_order :: byte_order

definition generateDEK :: "bytes option \<Rightarrow> bytes Result" where
  "generateDEK rnd =
     (case rnd of
        None \<Rightarrow> Err CRYPTO_ERROR ''Failed to generate DEK''
      | Some r \<Rightarrow> Inr (fill_buffer (replicate 32 0) r))"

definition wrapDEK :: "fes_env \<Rightarrow> bytes \<Rightarrow> KeyId \<Rightarrow> bytes Result" where
  "wrapDEK env dek kek =
     (case kek_material env kek of
        Inl e \<Rightarrow> Inl e
      | Inr kek_bytes \<Rightarrow>
         (case encryptGCM (fes_evp env) (wrap_iv_rand env) dek kek_bytes [] of
            Inl e \<Rightarrow> Inl e
          | Inr r \<Rightarrow> Inr (iv r @ tag r @ ciphertext r)))"

text \<open>
  Reading the input: with \<open>input_size > 0\<close> the buffer is resized to that many zero
  bytes and \<open>read\<close> overwrites as many as the stream has; otherwise the stream is read
  to its end.
\<close>

definition read_input :: "bytes \<Rightarrow> nat \<Rightarrow> bytes" where
  "read_input input input_size =
     (if input_size > 0 then fill_buffer (replicate input_size 0) input else input)"

text \<open>
  \<open>encryptStream\<close>: the result and the bytes written to the output stream, which is
  empty before the call.  Nothing is written on the paths that return an error.
\<close>

definition encryptStream ::
  "fes_env \<Rightarrow> bytes \<Rightarrow> KeyId \<Rightarrow> nat \<Rightarrow> unit Result \<times> bytes" where
  "encryptStream env input kek input_size =
     (case generateDEK (dek_rand env) of
        Inl e \<Rightarrow> (Inl e, [])
      | Inr dek \<Rightarrow>
         (case wrapDEK env dek kek of
            Inl e \<Rightarrow> (Inl e, [])
          | Inr wrapped \<Rightarrow>
             (let plaintext = read_input input input_size in
              (case encryptGCM (fes_evp env) (data_iv_rand env) plaintext dek [] of
                 Inl e \<Rightarrow> (Inl e, [])
               | Inr r \<Rightarrow>
                  (let header =
                         \<lparr>magic = MAGIC, hdr_version = VERSION, hdr_algorithm = 1,
                          key_id = kek, wrapped_dek = wrapped, hdr_iv = iv r, hdr_tag = tag r,
                          original_size = of_nat (length plaintext),
                          chunk_size = of_nat (chunk_size_cfg env)\<rparr>;
                       header_data = serialize header;
                       header_size = (of_nat (length header_data) :: 32 word)
                   in (Inr (),
                       native_u32 (host_order env) header_size @ header_data @ ciphertext r))))))"

section \<open>Little-endian encoding, as the envelope format names it\<close>

text \<open>
  The \<open>w\<close>-byte little-endian encoding of a number: byte \<open>i\<close> is digit \<open>i\<close> of the
  number in base 256.  This follows the words of the format description
  (\<open>u32_le\<close>, \<open>u16_le\<close>, \<open>u64_le\<close>), to be compared with \<open>write_u32\<close>, \<open>write_u16\<close>
  and \<open>write_u64\<close> of the source.
\<close>

definition le_bytes :: "nat \<Rightarrow> nat \<Rightarrow> bytes" where
  "le_bytes w v = map (\<lambda>i. of_nat ((v div 256 ^ i) mod 256)) [0..<w]"

section \<open>Concrete inputs for running the model\<close>

definition hello_world :: bytes where
  "hello_world = [104, 101, 108, 108, 111, 32, 119, 111, 114, 108, 100]"

definition zero_key :: bytes where
  "zero_key = replicate 32 0"

definition sample_iv :: bytes where
  "sample_iv = [1, 2, 3, 4, 5, 6, 7, 8, 9, 10, 11, 12]"

definition sample_kek :: KeyId where
  "sample_kek = \<lparr>namespace_prefix = ''auth'', id' = ''k'', version = 1\<rparr>"

definition sample_fes_env :: fes_env where
  "sample_fes_env =
     \<lparr>fes_evp = toy_evp, dek_rand = Some (replicate 32 7), wrap_iv_rand = Some sample_iv,
      data_iv_rand = Some sample_iv, kek_material = (\<lambda>k. Inr zero_key),
      chunk_size_cfg = 65536, host_order = LittleEndian\<rparr>"

definition sample_plain :: bytes where
  "sample_plain = [0xAB, 0xAB]"

text \<open>The file that \<open>encryptStream\<close> writes for \<open>sample_plain\<close> in \<open>sample_fes_env\<close>.\<close>

definition sample_envelope :: bytes where
  "sample_envelope =
     [132, 0, 0, 0, 80, 89, 82, 67, 1, 0, 1, 0, 8, 0, 0, 0, 97, 117, 116, 104,
      58, 107, 58, 49, 60, 0, 0, 0, 1, 2, 3, 4, 5, 6, 7, 8, 9, 10, 11, 12, 12,
      0, 0, 0, 0, 0, 0, 0, 0, 0, 0, 0, 0, 0, 0, 0, 93, 93, 93, 93, 93, 93, 93,
      93, 93, 93, 93, 93, 93, 93, 93, 93, 93, 93, 93, 93, 93, 93, 93, 93, 93,
      93, 93, 93, 93, 93, 93, 93, 12, 0, 0, 0, 1, 2, 3, 4, 5, 6, 7, 8, 9, 10,
      11, 12, 16, 0, 0, 0, 12, 0, 0, 0, 0, 0, 0, 0, 0, 0, 0, 0, 0, 0, 0, 0, 2,
      0, 0, 0, 0, 0, 0, 0, 0, 0, 1, 0, 241, 241]"

text \<open>
  A stored AES-256 key with a given identifier and state, sealed under \<open>zero_key\<close> by the
  stand-in cipher, and the in-memory store that holds only this key.
\<close>

definition sample_metadata :: "KeyId \<Rightarrow> KeyState \<Rightarrow> KeyMetadata" where
  "sample_metadata k st =
     \<lparr>meta_id = k, algorithm = AES_256_GCM, key_type = SYMMETRIC, state = st,
      created_at = 0, expires_at = 31536000000000000, rotated_at = None,
      previous_version = None, owner_service = ''test-service'',
      allowed_operations = [''encrypt'', ''decrypt''], usage_count = 0\<rparr>"

definition sample_material :: bytes where
  "sample_material = replicate 32 9"

definition sample_stored_key :: "KeyId \<Rightarrow> KeyState \<Rightarrow> EncryptedKey" where
  "sample_stored_key k st =
     \<lparr>encrypted_material = toy_mask sample_material, ek_iv = sample_iv,
      ek_tag = toy_tag zero_key sample_iv [] (toy_mask sample_material),
      kek_id = default_KeyId, metadata = sample_metadata k st\<rparr>"






section \<open>Verification: PKCS#7 padding\<close>

lemma verify_padding_iff:
  "verify_padding d p i = (\<forall>j. i \<le> j \<and> j < length d \<longrightarrow> d ! j = p)"
proof (induction d p i rule: verify_padding.induct)
  case (1 d p i)
  show ?case
  proof (cases "i < length d")
    case False
    then show ?thesis by (subst verify_padding.simps) auto
  next
    case True
    show ?thesis
    proof (cases "d ! i = p")
      case False
      with True show ?thesis
        by (subst verify_padding.simps) auto
    next
      case eq: True
      have "verify_padding d p i = verify_padding d p (Suc i)"
        using True eq by (subst verify_padding.simps) simp
      also have "\<dots> = (\<forall>j. Suc i \<le> j \<and> j < length d \<longrightarrow> d ! j = p)"
        using "1.IH" True eq by simp
      also have "\<dots> = (\<forall>j. i \<le> j \<and> j < length d \<longrightarrow> d ! j = p)"
        using eq by (metis Suc_leI le_neq_implies_less Suc_leD)
      finally show ?thesis .
    qed
  qed
qed

lemma padding_len_range:
  "1 \<le> CBC_BLOCK_SIZE - (n mod CBC_BLOCK_SIZE) \<and> CBC_BLOCK_SIZE - (n mod CBC_BLOCK_SIZE) \<le> 16"
  by (simp add: CBC_BLOCK_SIZE_def)

lemma unat_padding_byte:
  "1 \<le> p \<Longrightarrow> p \<le> 16 \<Longrightarrow> unat (of_nat p :: byte) = p"
  by (simp add: unat_of_nat)

lemma remove_add: "removePKCS7Padding (addPKCS7Padding d) = Inr d"
proof -
  define p where "p = CBC_BLOCK_SIZE - (length d mod CBC_BLOCK_SIZE)"
  have p: "1 \<le> p" "p \<le> 16" using padding_len_range[of "length d"] by (simp_all add: p_def)
  have u: "unat (of_nat p :: byte) = p" using p by (rule unat_padding_byte)
  have a: "addPKCS7Padding d = d @ replicate p (of_nat p)"
    by (simp add: addPKCS7Padding_def p_def Let_def)
  have ne: "d @ replicate p (of_nat p :: byte) \<noteq> []" using p by auto
  have l: "last (d @ replicate p (of_nat p :: byte)) = of_nat p" using p by (cases p) auto
  have nz: "(of_nat p :: byte) \<noteq> 0" using u p by (metis not_one_le_zero unat_0)
  have v: "verify_padding (d @ replicate p (of_nat p)) (of_nat p :: byte) (length d)"
    by (auto simp: verify_padding_iff nth_append)
  show ?thesis
    unfolding a removePKCS7Padding_def using ne p
    by (simp add: Let_def l u nz CBC_BLOCK_SIZE_def v del: last_appendR last_replicate)
qed

lemma pad_total: "n + (16 - n mod 16) = 16 * (n div 16 + 1)" for n :: nat
proof -
  define q where "q = n div 16"
  define r where "r = n mod 16"
  have "r < 16" by (simp add: r_def)
  moreover have "n = 16 * q + r" by (simp add: q_def r_def)
  ultimately have "n + (16 - r) = 16 * (q + 1)" by simp
  then show ?thesis by (simp only: q_def r_def)
qed

lemma pad_least: "16 dvd y \<Longrightarrow> n < y \<Longrightarrow> n + (16 - n mod 16) \<le> y" for n :: nat
proof -
  assume "16 dvd y" and lt: "n < y"
  then obtain k where y: "y = 16 * k" by (auto simp: dvd_def)
  with lt have "n div 16 < k"
    by (simp add: div_less_iff_less_mult mult.commute)
  then have "16 * (n div 16 + 1) \<le> 16 * k" by simp
  then show ?thesis by (simp only: pad_total y)
qed

text \<open>
  Claim C9.  For every byte sequence \<open>d\<close>, \<open>addPKCS7Padding d\<close> has as its length
  the smallest multiple of 16 strictly greater than the length of \<open>d\<close>; it is \<open>d\<close>
  followed by \<open>p\<close> bytes of value \<open>p\<close>, for a padding length \<open>p\<close> between 1 and 16;
  and \<open>removePKCS7Padding\<close> of it succeeds and returns exactly \<open>d\<close>.
\<close>

theorem pkcs7_padding_roundtrip:
  "length (addPKCS7Padding d) = (LEAST m. 16 dvd m \<and> length d < m)
   \<and> (\<exists>p. 1 \<le> p \<and> p \<le> 16 \<and> addPKCS7Padding d = d @ replicate p (of_nat p))
   \<and> removePKCS7Padding (addPKCS7Padding d) = Inr d"
proof -
  define p where "p = CBC_BLOCK_SIZE - (length d mod CBC_BLOCK_SIZE)"
  have p: "1 \<le> p" "p \<le> 16" using padding_len_range[of "length d"] by (simp_all add: p_def)
  have a: "addPKCS7Padding d = d @ replicate p (of_nat p)"
    by (simp add: addPKCS7Padding_def p_def Let_def)
  have len: "length (addPKCS7Padding d) = length d + p" by (simp add: a)
  have pt: "length d + p = 16 * (length d div 16 + 1)"
    unfolding p_def CBC_BLOCK_SIZE_def by (rule pad_total)
  have dv: "16 dvd (length d + p)"
    unfolding pt by simp
  have least: "(LEAST m. 16 dvd m \<and> length d < m) = length d + p"
  proof (rule Least_equality)
    show "16 dvd length d + p \<and> length d < length d + p" using dv p by simp
  next
    fix y assume y: "16 dvd y \<and> length d < y"
    from y have "16 dvd y" and "length d < y" by simp_all
    then show "length d + p \<le> y"
      unfolding p_def CBC_BLOCK_SIZE_def by (rule pad_least)
  qed
  have ex: "\<exists>q. 1 \<le> q \<and> q \<le> 16 \<and> addPKCS7Padding d = d @ replicate q (of_nat q)"
    using p a by blast
  show ?thesis
    unfolding len least using ex remove_add by (intro conjI) (rule refl)
qed

theorem pkcs7_padding_roundtrip_witness:
  "addPKCS7Padding [1, 2, 3] = [1, 2, 3] @ replicate 13 13
   \<and> removePKCS7Padding (addPKCS7Padding [1, 2, 3]) = Inr [1, 2, 3]"
proof -
  have a: "addPKCS7Padding [1, 2, 3] = [1, 2, 3] @ replicate 13 13"
    by (simp add: addPKCS7Padding_def CBC_BLOCK_SIZE_def)
  have r: "removePKCS7Padding (addPKCS7Padding [1, 2, 3]) = Inr [1, 2, 3]"
    by (rule pkcs7_padding_roundtrip [of "[1, 2, 3]", THEN conjunct2, THEN conjunct2])
  from a r show ?thesis by (rule conjI)
qed

section \<open>Verification: traceparent parsing\<close>

lemma take3_iff:
  "3 \<le> length s \<Longrightarrow> (take 3 s = [a, b, c]) = (s ! 0 = a \<and> s ! 1 = b \<and> s ! 2 = c)"
  by (cases s; cases "tl s"; cases "tl (tl s)") auto

lemma TraceContext_parse_eq_nth:
  "TraceContext_parse s =
     (if length s < 55 \<or> s ! 0 \<noteq> CHR ''0'' \<or> s ! 1 \<noteq> CHR ''0'' \<or> s ! 2 \<noteq> CHR ''-''
         \<or> all_zero_chars (take 32 (drop 3 s)) \<or> all_zero_chars (take 16 (drop 36 s))
      then Nullopt
      else Parsed \<lparr>trace_id = take 32 (drop 3 s), span_id = take 16 (drop 36 s),
                   parent_span_id = '''', sampled = (s ! 54 = CHR ''1''), tracestate = []\<rparr>)"
proof (cases "length s < 55")
  case True
  then show ?thesis by (simp add: TraceContext_parse_def)
next
  case False
  then have len: "55 \<le> length s" by simp
  have fl: "string_at (take 2 (drop 53 s)) (Suc 0) = s ! 54"
    using len by (simp add: string_at_def)
  have at: "string_at s 0 = s ! 0" "string_at s (Suc 0) = s ! Suc 0" "string_at s 2 = s ! 2"
    using len by (auto simp: string_at_def)
  show ?thesis
    using len
    by (simp add: TraceContext_parse_def at fl substr_def Let_def default_TraceContext_def)
qed

lemma TraceContext_parse_eq:
  "TraceContext_parse s =
     (if length s < 55 \<or> take 3 s \<noteq> ''00-''
         \<or> all_zero_chars (take 32 (drop 3 s)) \<or> all_zero_chars (take 16 (drop 36 s))
      then Nullopt
      else Parsed \<lparr>trace_id = take 32 (drop 3 s), span_id = take 16 (drop 36 s),
                   parent_span_id = '''', sampled = (s ! 54 = CHR ''1''), tracestate = []\<rparr>)"
proof (cases "length s < 55")
  case True
  then show ?thesis by (simp add: TraceContext_parse_def)
next
  case False
  then have "3 \<le> length s" by simp
  then have t3: "(take 3 s \<noteq> ''00-'') = (s ! 0 \<noteq> CHR ''0'' \<or> s ! 1 \<noteq> CHR ''0'' \<or> s ! 2 \<noteq> CHR ''-'')"
    using take3_iff[of s "CHR ''0''" "CHR ''0''" "CHR ''-''"] by blast
  show ?thesis
    by (simp add: TraceContext_parse_eq_nth t3)
qed

lemma upd_outside:
  "i = 35 \<or> i = 52 \<or> i = 53 \<Longrightarrow>
     take 3 (s[i := c]) = take 3 s \<and> take 32 (drop 3 (s[i := c])) = take 32 (drop 3 s)
     \<and> take 16 (drop 36 (s[i := c])) = take 16 (drop 36 s) \<and> (s[i := c]) ! 54 = s ! 54"
  by (auto simp: drop_update_swap take_update_swap list_update_beyond)

text \<open>
  Claim C10.  \<open>TraceContext::parse\<close> never throws, and it accepts exactly the strings
  of length at least 55 that start with \<open>00-\<close> and whose trace-id field (positions 3
  to 34) and span-id field (positions 36 to 51) are not made of the character \<open>0\<close>
  alone.  The accepted context carries these two fields as they are (nothing requires
  them to be hexadecimal) and \<open>sampled\<close> is true iff the character at position 54 is
  \<open>1\<close>.  Characters beyond position 54 are ignored, and so are the characters at
  positions 35, 52 (the separators) and 53 (the first flag character).
\<close>

theorem traceparent_parse_leniency:
  "TraceContext_parse s \<noteq> OutOfRange
   \<and> ((\<exists>ctx. TraceContext_parse s = Parsed ctx) \<longleftrightarrow>
        (55 \<le> length s \<and> take 3 s = ''00-''
         \<and> \<not> all_zero_chars (take 32 (drop 3 s)) \<and> \<not> all_zero_chars (take 16 (drop 36 s))))
   \<and> (\<forall>ctx. TraceContext_parse s = Parsed ctx \<longrightarrow>
         trace_id ctx = take 32 (drop 3 s) \<and> span_id ctx = take 16 (drop 36 s)
         \<and> sampled ctx = (s ! 54 = CHR ''1''))
   \<and> (55 \<le> length s \<longrightarrow> TraceContext_parse (s @ t) = TraceContext_parse s)
   \<and> (i = 35 \<or> i = 52 \<or> i = 53 \<longrightarrow> TraceContext_parse (s[i := c]) = TraceContext_parse s)"
proof (intro conjI)
  show "TraceContext_parse s \<noteq> OutOfRange"
    by (simp add: TraceContext_parse_eq)
  show "(\<exists>ctx. TraceContext_parse s = Parsed ctx) \<longleftrightarrow>
        (55 \<le> length s \<and> take 3 s = ''00-''
         \<and> \<not> all_zero_chars (take 32 (drop 3 s)) \<and> \<not> all_zero_chars (take 16 (drop 36 s)))"
    by (auto simp: TraceContext_parse_eq)
  show "\<forall>ctx. TraceContext_parse s = Parsed ctx \<longrightarrow>
         trace_id ctx = take 32 (drop 3 s) \<and> span_id ctx = take 16 (drop 36 s)
         \<and> sampled ctx = (s ! 54 = CHR ''1'')"
    by (auto simp: TraceContext_parse_eq split: if_splits)
  show "55 \<le> length s \<longrightarrow> TraceContext_parse (s @ t) = TraceContext_parse s"
    by (simp add: TraceContext_parse_eq nth_append)
  show "i = 35 \<or> i = 52 \<or> i = 53 \<longrightarrow> TraceContext_parse (s[i := c]) = TraceContext_parse s"
  proof
    assume i: "i = 35 \<or> i = 52 \<or> i = 53"
    note u = upd_outside[OF i, of s c]
    show "TraceContext_parse (s[i := c]) = TraceContext_parse s"
      unfolding TraceContext_parse_eq[of "s[i := c]"] TraceContext_parse_eq[of s]
      by (simp only: u length_list_update)
  qed
qed

theorem traceparent_parse_leniency_witness:
  "TraceContext_parse ''00-0af7651916cd43dd8448eb211c80319c-b7ad6b7169203331-01'' =
     Parsed \<lparr>trace_id = ''0af7651916cd43dd8448eb211c80319c'', span_id = ''b7ad6b7169203331'',
             parent_span_id = '''', sampled = True, tracestate = []\<rparr>
   \<and> TraceContext_parse ''00-0af7651916cd43dd8448eb211c80319cXb7ad6b7169203331Y?1 and more'' =
     TraceContext_parse ''00-0af7651916cd43dd8448eb211c80319c-b7ad6b7169203331-01''"
proof -
  let ?s = "''00-0af7651916cd43dd8448eb211c80319c-b7ad6b7169203331-01''"
  note t = traceparent_parse_leniency[of ?s]
  have len: "55 \<le> length ?s" by simp
  have ok: "55 \<le> length ?s \<and> take 3 ?s = ''00-''
         \<and> \<not> all_zero_chars (take 32 (drop 3 ?s)) \<and> \<not> all_zero_chars (take 16 (drop 36 ?s))"
    by (simp add: all_zero_chars_def)
  from t[of "'' and more''" 35 "CHR ''X''"] ok obtain ctx where p: "TraceContext_parse ?s = Parsed ctx"
    by blast
  with t[of "'' and more''" 35 "CHR ''X''"]
  have f: "trace_id ctx = take 32 (drop 3 ?s)" "span_id ctx = take 16 (drop 36 ?s)"
    "sampled ctx = (?s ! 54 = CHR ''1'')" by blast+
  have a1: "TraceContext_parse (?s @ '' and more'') = TraceContext_parse ?s"
    using t[of "'' and more''" 35 "CHR ''X''"] len by blast
  have a2: "TraceContext_parse ((?s @ '' and more'')[35 := CHR ''X'']) = TraceContext_parse (?s @ '' and more'')"
    using traceparent_parse_leniency[of "?s @ '' and more''" "[]" 35 "CHR ''X''"] by blast
  have a3: "TraceContext_parse (((?s @ '' and more'')[35 := CHR ''X''])[52 := CHR ''Y''])
     = TraceContext_parse ((?s @ '' and more'')[35 := CHR ''X''])"
    using traceparent_parse_leniency[of "(?s @ '' and more'')[35 := CHR ''X'']" "[]" 52 "CHR ''Y''"] by blast
  have a4: "TraceContext_parse ((((?s @ '' and more'')[35 := CHR ''X''])[52 := CHR ''Y''])[53 := CHR ''?''])
     = TraceContext_parse (((?s @ '' and more'')[35 := CHR ''X''])[52 := CHR ''Y''])"
    using traceparent_parse_leniency[of "((?s @ '' and more'')[35 := CHR ''X''])[52 := CHR ''Y'']" "[]" 53 "CHR ''?''"] by blast
  have e: "(((?s @ '' and more'')[35 := CHR ''X''])[52 := CHR ''Y''])[53 := CHR ''?'']
     = ''00-0af7651916cd43dd8448eb211c80319cXb7ad6b7169203331Y?1 and more''"
    by simp
  have "TraceContext_parse ?s = Parsed \<lparr>trace_id = ''0af7651916cd43dd8448eb211c80319c'', span_id = ''b7ad6b7169203331'',
             parent_span_id = '''', sampled = True, tracestate = []\<rparr>"
    by (simp add: TraceContext_parse_eq all_zero_chars_def)
  then show ?thesis using a1 a2 a3 a4 e by simp
qed

section \<open>Verification: AES-GCM engine\<close>

lemma length_fill_buffer [simp]: "length (fill_buffer buf src) = length buf"
  by (simp add: fill_buffer_def)

lemma fill_buffer_same_length: "length src = length buf \<Longrightarrow> fill_buffer buf src = src"
  by (simp add: fill_buffer_def)

lemma guard_Inr [simp]: "guard (Inr u) rest = rest"
  by (simp add: guard_def)

lemma guard_Inl [simp]: "guard (Inl e) rest = (Inl e, [])"
  by (simp add: guard_def)

lemmas validate_defs =
  validatePlaintextSize_def validateCiphertextSize_def validateAADSize_def
  validateAESKeySize_def validateGCMIVSize_def validateGCMTagSize_def
  MAX_PLAINTEXT_SIZE_def MAX_CIPHERTEXT_SIZE_def MAX_AAD_SIZE_def Err_def

lemma encryptGCMWithIV_traced_Inr:
  assumes "encryptGCMWithIV_traced evp P K n aad = (Inr r, calls)"
  shows "\<exists>c t. evp_seal evp K n aad P = Some (c, t) \<and>
           r = \<lparr>ciphertext = c, iv = n, tag = fill_buffer (replicate GCM_TAG_SIZE 0) t\<rparr>
           \<and> length P \<le> MAX_PLAINTEXT_SIZE \<and> length aad \<le> MAX_AAD_SIZE
           \<and> (length K = 16 \<or> length K = 32) \<and> length n = 12 \<and> calls = [EVP_encrypt]"
  using assms
  by (auto simp: encryptGCMWithIV_traced_def validate_defs getGCMCipher_def
      split: if_splits option.splits)

lemma encryptGCM_Inr:
  assumes "encryptGCM evp rnd P K aad = Inr r"
  shows "\<exists>r0 c t. rnd = Some r0 \<and> iv r = fill_buffer (replicate GCM_IV_SIZE 0) r0
           \<and> evp_seal evp K (iv r) aad P = Some (c, t)
           \<and> ciphertext r = c \<and> tag r = fill_buffer (replicate GCM_TAG_SIZE 0) t
           \<and> length P \<le> MAX_PLAINTEXT_SIZE \<and> length aad \<le> MAX_AAD_SIZE
           \<and> (length K = 16 \<or> length K = 32) \<and> length (iv r) = 12"
proof -
  from assms obtain r0 where r0: "rnd = Some r0"
    by (cases rnd) (auto simp: encryptGCM_def encryptGCM_traced_def generateIV_def Err_def)
  let ?n = "fill_buffer (replicate GCM_IV_SIZE 0) r0"
  from assms r0 obtain calls where "encryptGCMWithIV_traced evp P K ?n aad = (Inr r, calls)"
    by (cases "encryptGCMWithIV_traced evp P K ?n aad")
       (auto simp: encryptGCM_def encryptGCM_traced_def generateIV_def)
  from encryptGCMWithIV_traced_Inr[OF this] r0 show ?thesis by auto
qed

lemma decryptGCM_valid_sizes:
  assumes "length c \<le> MAX_CIPHERTEXT_SIZE" "length aad \<le> MAX_AAD_SIZE"
    "length K = 16 \<or> length K = 32" "length n = 12" "length t = 16"
  shows "decryptGCM evp c K n t aad =
     (case evp_open evp K n aad c t of
        EvpCallFailed \<Rightarrow> Inl (makeSafeError DECRYPTION_FAILED)
      | EvpFinalFailed \<Rightarrow> Inl (makeSafeError INTEGRITY_ERROR)
      | EvpOpened p \<Rightarrow> Inr p)"
  using assms
  by (auto simp: decryptGCM_def decryptGCM_traced_def validate_defs getGCMCipher_def
      split: evp_open_result.splits)

text \<open>
  Claim C1.  Whatever EVP cipher satisfies the round-trip contract of an AEAD: for every
  plaintext of at most 64 MiB, every key of 16 or 32 bytes and every AAD of at most
  64 KiB, whenever the random generator delivers the IV and the EVP calls of the
  encryption return 1, \<open>encryptGCM\<close> succeeds, and \<open>decryptGCM\<close> applied to the
  ciphertext, IV and tag it produced, with the same key and AAD, succeeds and returns
  exactly the plaintext.
\<close>

theorem aes_gcm_roundtrip:
  assumes "evp_roundtrip evp"
    and "length P \<le> 64 * 1024 * 1024"
    and "length K = 16 \<or> length K = 32"
    and "length aad \<le> 64 * 1024"
    and "rnd = Some r0"
    and "evp_seal evp K (fill_buffer (replicate GCM_IV_SIZE 0) r0) aad P \<noteq> None"
  shows "\<exists>r. encryptGCM evp rnd P K aad = Inr r
           \<and> decryptGCM evp (ciphertext r) K (iv r) (tag r) aad = Inr P"
proof -
  let ?n = "fill_buffer (replicate GCM_IV_SIZE 0) r0"
  from assms(6) obtain c t where seal: "evp_seal evp K ?n aad P = Some (c, t)"
    by (cases "evp_seal evp K ?n aad P") auto
  let ?r = "\<lparr>ciphertext = c, iv = ?n, tag = fill_buffer (replicate GCM_TAG_SIZE 0) t\<rparr>"
  have n: "length ?n = 12" by (simp add: GCM_IV_SIZE_def)
  have enc: "encryptGCM evp rnd P K aad = Inr ?r"
    using assms(2-5) seal n
    by (auto simp: encryptGCM_def encryptGCM_traced_def generateIV_def
        encryptGCMWithIV_traced_def validate_defs getGCMCipher_def)
  from assms(1) seal have len: "length c = length P"
    and opened: "evp_open evp K ?n aad c (fill_buffer (replicate GCM_TAG_SIZE 0) t) = EvpOpened P"
    unfolding evp_roundtrip_def by blast+
  have c: "length c \<le> MAX_CIPHERTEXT_SIZE"
    using assms(2) len by (simp add: MAX_CIPHERTEXT_SIZE_def)
  have a: "length aad \<le> MAX_AAD_SIZE" using assms(4) by (simp add: MAX_AAD_SIZE_def)
  have t: "length (fill_buffer (replicate GCM_TAG_SIZE 0) t) = 16" by (simp add: GCM_TAG_SIZE_def)
  have "decryptGCM evp c K ?n (fill_buffer (replicate GCM_TAG_SIZE 0) t) aad = Inr P"
    using decryptGCM_valid_sizes[OF c a assms(3) n t, of evp] opened by simp
  with enc show ?thesis by simp
qed

lemma xor_twice: "(b XOR m) XOR m = (b::byte)"
  by (simp add: xor.assoc)

lemma toy_mask_twice [simp]: "toy_mask (toy_mask p) = p"
  by (simp add: toy_mask_def o_def xor.assoc)

lemma length_toy_mask [simp]: "length (toy_mask p) = length p"
  by (simp add: toy_mask_def)

lemma length_toy_tag [simp]: "length (toy_tag k n a c) = 16"
  by (simp add: toy_tag_def)

lemma toy_tag_fill [simp]: "fill_buffer (replicate GCM_TAG_SIZE 0) (toy_tag k n a c) = toy_tag k n a c"
  by (simp add: fill_buffer_same_length GCM_TAG_SIZE_def)

lemma toy_evp_roundtrip: "evp_roundtrip toy_evp"
  by (auto simp: evp_roundtrip_def toy_evp_def)

lemma xor_sum_append: "xor_sum (a @ b) = xor_sum a XOR xor_sum b"
  by (induction a) (simp_all add: xor_sum_def xor.assoc)

lemma xor_sum_update:
  "j < length xs \<Longrightarrow> xor_sum (xs[j := xs ! j XOR m]) = xor_sum xs XOR m"
proof (induction xs arbitrary: j)
  case Nil
  then show ?case by simp
next
  case (Cons x xs)
  show ?case
  proof (cases j)
    case 0
    then show ?thesis by (simp add: xor_sum_def xor.assoc xor.commute xor.left_commute)
  next
    case (Suc j')
    with Cons.prems have "j' < length xs" by simp
    from Cons.IH[OF this] Suc show ?thesis
      by (simp add: xor_sum_def xor.assoc)
  qed
qed

lemma bit_mask_nonzero: "(push_bit (i mod 8) 1 :: byte) \<noteq> 0"
  by (simp add: exp_eq_zero_iff)

lemma xor_mask_neq: "m \<noteq> 0 \<Longrightarrow> x XOR m \<noteq> (x::byte)"
  by (metis xor.right_neutral xor.left_commute xor_self_eq xor.commute)

lemma xor_sum_flip:
  "i < 8 * length xs \<Longrightarrow> xor_sum (flip_bit_at i xs) = xor_sum xs XOR push_bit (i mod 8) 1"
  by (simp add: flip_bit_at_def xor_sum_update)

lemma xor_alg: "(p XOR ((x XOR m) XOR q)) = (p XOR (x XOR q)) XOR (m::byte)"
  by (simp add: xor.assoc xor.commute xor.left_commute)

lemma xor_sum_flip_mid:
  assumes "i < 8 * length xs"
  shows "xor_sum (pre @ flip_bit_at i xs @ post) \<noteq> xor_sum (pre @ xs @ post)"
proof -
  define m :: byte where "m = push_bit (i mod 8) 1"
  have m: "m \<noteq> 0" unfolding m_def by (rule bit_mask_nonzero)
  have "xor_sum (pre @ flip_bit_at i xs @ post)
          = xor_sum pre XOR ((xor_sum xs XOR m) XOR xor_sum post)"
    by (simp only: xor_sum_append xor_sum_flip[OF assms] m_def)
  also have "\<dots> = (xor_sum pre XOR (xor_sum xs XOR xor_sum post)) XOR m"
    by (rule xor_alg)
  also have "\<dots> = xor_sum (pre @ xs @ post) XOR m"
    by (simp only: xor_sum_append)
  finally show ?thesis using xor_mask_neq[OF m] by simp
qed

lemma xor_sum_flip_neq:
  "i < 8 * length xs \<Longrightarrow> xor_sum (flip_bit_at i xs) \<noteq> xor_sum xs"
  using xor_sum_flip_mid[of i xs "[]" "[]"] by simp

lemma flip_bit_at_neq: "i < 8 * length xs \<Longrightarrow> flip_bit_at i xs \<noteq> xs"
  using xor_sum_flip_neq by metis

lemma toy_tag_neq:
  "xor_sum (k' @ n' @ a' @ c') \<noteq> xor_sum (k @ n @ a @ c) \<Longrightarrow> toy_tag k n a c \<noteq> toy_tag k' n' a' c'"
  by (auto simp: toy_tag_def)

lemma toy_evp_detects_bit_flips: "evp_detects_bit_flips toy_evp"
  unfolding evp_detects_bit_flips_def
proof (intro allI impI)
  fix k n a p c t f i c' n' t' a'
  assume seal: "evp_seal toy_evp k n a p = Some (c, t)"
    and i: "i < field_bits f (c, n, fill_buffer (replicate GCM_TAG_SIZE 0) t, a)"
    and tam: "tamper f i (c, n, fill_buffer (replicate GCM_TAG_SIZE 0) t, a) = (c', n', t', a')"
  from seal have c: "c = toy_mask p" and t: "t = toy_tag k n a c"
    by (auto simp: toy_evp_def)
  have ft: "fill_buffer (replicate GCM_TAG_SIZE 0) t = t" by (simp add: t)
  have "t' \<noteq> toy_tag k n' a' c'"
  proof (cases f)
    case Field_ciphertext
    with tam i ft have e: "c' = flip_bit_at i c" "n' = n" "t' = t" "a' = a" "i < 8 * length c" by auto
    show ?thesis unfolding e t
      using xor_sum_flip_mid[OF e(5), of "k @ n @ a" "[]"] by (intro toy_tag_neq) simp
  next
    case Field_iv
    with tam i ft have e: "c' = c" "n' = flip_bit_at i n" "t' = t" "a' = a" "i < 8 * length n" by auto
    show ?thesis unfolding e t
      using xor_sum_flip_mid[OF e(5), of "k" "a @ c"] by (intro toy_tag_neq) simp
  next
    case Field_tag
    with tam i ft have e: "c' = c" "n' = n" "t' = flip_bit_at i t" "a' = a" "i < 8 * length t" by auto
    show ?thesis unfolding e using flip_bit_at_neq[OF e(5)] t by simp
  next
    case Field_aad
    with tam i ft have e: "c' = c" "n' = n" "t' = t" "a' = flip_bit_at i a" "i < 8 * length a" by auto
    show ?thesis unfolding e t
      using xor_sum_flip_mid[OF e(5), of "k @ n" "c"] by (intro toy_tag_neq) simp
  qed
  then show "evp_open toy_evp k n' a' c' t' = EvpFinalFailed"
    by (simp add: toy_evp_def)
qed

lemma length_flip_bit_at [simp]: "length (flip_bit_at i xs) = length xs"
  by (simp add: flip_bit_at_def)

lemma tamper_lengths:
  "tamper f i (c, n, t, a) = (c', n', t', a') \<Longrightarrow>
     length c' = length c \<and> length n' = length n \<and> length t' = length t \<and> length a' = length a"
  by (cases f) auto

text \<open>
  Claim C2.  Whatever EVP cipher satisfies the contracts of an AEAD: after a successful
  \<open>encryptGCM\<close>, flipping any single bit of the ciphertext, the IV, the tag or the AAD
  makes \<open>decryptGCM\<close> return the error with code \<open>INTEGRITY_ERROR\<close> and message
  \<open>Data integrity verification failed\<close>, the same value whichever field and bit
  was changed.
\<close>

theorem gcm_tamper_opacity:
  assumes "evp_roundtrip evp" and "evp_detects_bit_flips evp"
    and "encryptGCM evp rnd P K aad = Inr r"
    and "i < field_bits f (ciphertext r, iv r, tag r, aad)"
    and "tamper f i (ciphertext r, iv r, tag r, aad) = (c', n', t', a')"
  shows "decryptGCM evp c' K n' t' a' =
           Inl \<lparr>code = INTEGRITY_ERROR, message = ''Data integrity verification failed'',
                correlation_id = ''''\<rparr>"
proof -
  from encryptGCM_Inr[OF assms(3)] obtain c t where
    seal: "evp_seal evp K (iv r) aad P = Some (c, t)"
    and r: "ciphertext r = c" "tag r = fill_buffer (replicate GCM_TAG_SIZE 0) t"
    and sz: "length P \<le> MAX_PLAINTEXT_SIZE" "length aad \<le> MAX_AAD_SIZE" "length (iv r) = 12"
      "length K = 16 \<or> length K = 32"
    by blast
  from assms(1) seal have len: "length c = length P"
    unfolding evp_roundtrip_def by blast
  have rej: "evp_open evp K n' a' c' t' = EvpFinalFailed"
    using assms(2)[unfolded evp_detects_bit_flips_def, rule_format, OF seal]
      assms(4,5)[unfolded r] by blast
  from tamper_lengths[OF assms(5)] have l: "length c' = length c" "length n' = 12"
    "length t' = 16" "length a' = length aad"
    using r sz by (simp_all add: GCM_TAG_SIZE_def)
  have c: "length c' \<le> MAX_CIPHERTEXT_SIZE"
    using sz(1) len l(1) by (simp add: MAX_CIPHERTEXT_SIZE_def MAX_PLAINTEXT_SIZE_def)
  have a: "length a' \<le> MAX_AAD_SIZE" using sz(2) l(4) by simp
  show ?thesis
    using decryptGCM_valid_sizes[OF c a sz(4) l(2) l(3), of evp] rej
    by (simp add: makeSafeError_def mkError_def)
qed

text \<open>
  Claim C7, as amended.  For a plaintext of 67,108,865 bytes and every key, IV and AAD,
  \<open>encryptGCMWithIV\<close> returns \<open>SIZE_LIMIT_EXCEEDED\<close> without any call into OpenSSL.
  \<open>encryptGCM\<close> first draws the IV: when the draw succeeds it returns
  \<open>SIZE_LIMIT_EXCEEDED\<close>, when the draw fails it returns \<open>CRYPTO_ERROR\<close>, and in both
  cases the only call into OpenSSL is \<open>RAND_bytes\<close>: no cipher call is made.
\<close>

theorem oversize_rejection:
  assumes "length P = 67108865"
  shows "encryptGCMWithIV_traced evp P K n aad =
           (Inl \<lparr>code = SIZE_LIMIT_EXCEEDED, message = ''Input exceeds maximum allowed size'',
                 correlation_id = ''''\<rparr>, [])
       \<and> encryptGCM_traced evp (Some rnd) P K aad =
           (Inl \<lparr>code = SIZE_LIMIT_EXCEEDED, message = ''Input exceeds maximum allowed size'',
                 correlation_id = ''''\<rparr>, [RAND_bytes 12])
       \<and> encryptGCM_traced evp None P K aad =
           (Inl \<lparr>code = CRYPTO_ERROR, message = ''Failed to generate random IV'',
                 correlation_id = ''''\<rparr>, [RAND_bytes 12])"
  using assms
  by (simp add: encryptGCMWithIV_traced_def encryptGCM_traced_def generateIV_def
      validate_defs mkError_def GCM_IV_SIZE_def)

text \<open>
  Claim C7 as stated fails: \<open>encryptGCM\<close> generates the IV before it validates the
  plaintext size, so for an oversized plaintext it returns \<open>CRYPTO_ERROR\<close>, not
  \<open>SIZE_LIMIT_EXCEEDED\<close>, when the random generator fails.
\<close>

theorem oversize_counterexample:
  "encryptGCM toy_evp None (replicate 67108865 0) (replicate 32 0) [] =
     Inl \<lparr>code = CRYPTO_ERROR, message = ''Failed to generate random IV'', correlation_id = ''''\<rparr>"
  by (simp add: encryptGCM_def encryptGCM_traced_def generateIV_def Err_def mkError_def
      )

lemma sample_lengths [simp]:
  "length hello_world = 11" "length zero_key = 32" "length sample_iv = 12"
  by (simp_all add: hello_world_def zero_key_def sample_iv_def)

lemma sample_encryption:
  "encryptGCM toy_evp (Some sample_iv) hello_world zero_key [] =
     Inr \<lparr>ciphertext = toy_mask hello_world, iv = sample_iv,
          tag = toy_tag zero_key sample_iv [] (toy_mask hello_world)\<rparr>"
  by (simp add: encryptGCM_def encryptGCM_traced_def generateIV_def encryptGCMWithIV_traced_def
      validate_defs getGCMCipher_def toy_evp_def fill_buffer_same_length GCM_IV_SIZE_def)

theorem aes_gcm_roundtrip_witness:
  "evp_roundtrip toy_evp
   \<and> evp_seal toy_evp zero_key (fill_buffer (replicate GCM_IV_SIZE 0) sample_iv) [] hello_world
       \<noteq> None
   \<and> encryptGCM toy_evp (Some sample_iv) hello_world zero_key [] =
       Inr \<lparr>ciphertext = toy_mask hello_world, iv = sample_iv,
            tag = toy_tag zero_key sample_iv [] (toy_mask hello_world)\<rparr>
   \<and> decryptGCM toy_evp (toy_mask hello_world) zero_key sample_iv
         (toy_tag zero_key sample_iv [] (toy_mask hello_world)) [] = Inr hello_world"
proof -
  have s: "evp_seal toy_evp zero_key (fill_buffer (replicate GCM_IV_SIZE 0) sample_iv) []
      hello_world \<noteq> None"
    by (simp add: toy_evp_def)
  from aes_gcm_roundtrip [OF toy_evp_roundtrip _ _ _ refl s]
  have "\<exists>r. encryptGCM toy_evp (Some sample_iv) hello_world zero_key [] = Inr r
           \<and> decryptGCM toy_evp (ciphertext r) zero_key (iv r) (tag r) [] = Inr hello_world"
    by simp
  then have "decryptGCM toy_evp (toy_mask hello_world) zero_key sample_iv
         (toy_tag zero_key sample_iv [] (toy_mask hello_world)) [] = Inr hello_world"
    by (simp add: sample_encryption)
  with toy_evp_roundtrip s sample_encryption show ?thesis by (intro conjI)
qed

theorem gcm_tamper_opacity_witness:
  "evp_roundtrip toy_evp \<and> evp_detects_bit_flips toy_evp
   \<and> encryptGCM toy_evp (Some sample_iv) hello_world zero_key [] =
       Inr \<lparr>ciphertext = toy_mask hello_world, iv = sample_iv,
            tag = toy_tag zero_key sample_iv [] (toy_mask hello_world)\<rparr>
   \<and> decryptGCM toy_evp (flip_bit_at 80 (toy_mask hello_world)) zero_key sample_iv
         (toy_tag zero_key sample_iv [] (toy_mask hello_world)) [] =
       Inl \<lparr>code = INTEGRITY_ERROR, message = ''Data integrity verification failed'',
            correlation_id = ''''\<rparr>"
proof -
  have "decryptGCM toy_evp (flip_bit_at 80 (toy_mask hello_world)) zero_key sample_iv
         (toy_tag zero_key sample_iv [] (toy_mask hello_world)) [] =
       Inl \<lparr>code = INTEGRITY_ERROR, message = ''Data integrity verification failed'',
            correlation_id = ''''\<rparr>"
    using gcm_tamper_opacity [OF toy_evp_roundtrip toy_evp_detects_bit_flips sample_encryption,
        of 80 Field_ciphertext "flip_bit_at 80 (toy_mask hello_world)" sample_iv
           "toy_tag zero_key sample_iv [] (toy_mask hello_world)" "[]"]
    by simp
  with toy_evp_roundtrip toy_evp_detects_bit_flips sample_encryption show ?thesis
    by (intro conjI)
qed

theorem oversize_rejection_witness:
  "length (replicate 67108865 (0::byte)) = 67108865
   \<and> encryptGCMWithIV_traced toy_evp (replicate 67108865 0) zero_key sample_iv [] =
       (Inl \<lparr>code = SIZE_LIMIT_EXCEEDED, message = ''Input exceeds maximum allowed size'',
             correlation_id = ''''\<rparr>, [])
   \<and> encryptGCM_traced toy_evp (Some sample_iv) (replicate 67108865 0) zero_key [] =
       (Inl \<lparr>code = SIZE_LIMIT_EXCEEDED, message = ''Input exceeds maximum allowed size'',
             correlation_id = ''''\<rparr>, [RAND_bytes 12])"
proof -
  have l: "length (replicate 67108865 (0::byte)) = 67108865" by simp
  from oversize_rejection [OF l, of toy_evp zero_key sample_iv "[]" sample_iv] l
  show ?thesis by blast
qed

section \<open>Verification: file envelope\<close>

lemma ff_mask: "(0xFF :: 'a::len word) = mask 8"
  by (simp add: mask_eq_exp_minus_1)

lemma extract_byte:
  "(ucast (drop_bit k v AND 0xFF) :: byte) = of_nat ((unat v div 2 ^ k) mod 256)"
  for v :: "'a::len word"
proof -
  have m: "(unat v div 2 ^ k) mod 256 = take_bit 8 (drop_bit k (unat v))"
    by (simp add: take_bit_eq_mod drop_bit_eq_div)
  show ?thesis
    unfolding m ff_mask
    by (rule bit_word_eqI) (auto simp: bit_simps dest: bit_imp_le_length)
qed

lemma extract_byte0:
  "(ucast (v AND 0xFF) :: byte) = of_nat (unat v mod 256)"
  for v :: "'a::len word"
  using extract_byte[of 0 v] by simp

lemma upt_0_2: "[0..<2] = [0, 1::nat]"
  by code_simp

lemma upt_0_4: "[0..<4] = [0, 1, 2, 3::nat]"
  by code_simp

lemma upt_0_8: "[0..<8] = [0, 1, 2, 3, 4, 5, 6, 7::nat]"
  by code_simp

lemma write_u32_le: "write_u32 v = le_bytes 4 (unat v)"
  using extract_byte[of 8 v] extract_byte[of 16 v] extract_byte[of 24 v]
  by (simp add: write_u32_def le_bytes_def extract_byte0 upt_0_4)

lemma write_u16_le: "write_u16 v = le_bytes 2 (unat v)"
  using extract_byte[of 8 v]
  by (simp add: write_u16_def le_bytes_def extract_byte0 upt_0_2)

lemma write_u64_le: "write_u64 v = le_bytes 8 (unat v)"
proof -
  have "\<And>i. (ucast (drop_bit (i * 8) v AND 0xFF) :: byte) = of_nat ((unat v div 256 ^ i) mod 256)"
  proof -
    fix i :: nat
    have "(256::nat) ^ i = (2 ^ 8) ^ i" by simp
    also have "\<dots> = 2 ^ (8 * i)" by (rule power_mult [symmetric])
    also have "\<dots> = 2 ^ (i * 8)" by (simp only: mult.commute)
    finally have "(256::nat) ^ i = 2 ^ (i * 8)" .
    then show "(ucast (drop_bit (i * 8) v AND 0xFF) :: byte) = of_nat ((unat v div 256 ^ i) mod 256)"
      by (simp only: extract_byte)
  qed
  then show ?thesis by (simp only: write_u64_def le_bytes_def)
qed

lemma encryptGCM_Inr_lengths:
  assumes "encryptGCM evp rnd P K aad = Inr r"
  shows "length (iv r) = 12 \<and> length (tag r) = 16"
proof -
  from assms obtain r0 where r0: "rnd = Some r0"
    by (cases rnd) (auto simp: encryptGCM_def encryptGCM_traced_def generateIV_def Err_def)
  let ?n = "fill_buffer (replicate GCM_IV_SIZE 0) r0"
  from assms r0 have "fst (encryptGCMWithIV_traced evp P K ?n aad) = Inr r"
    by (auto simp: encryptGCM_def encryptGCM_traced_def generateIV_def split: prod.splits)
  then show ?thesis
    by (auto simp: encryptGCMWithIV_traced_def guard_def GCM_IV_SIZE_def GCM_TAG_SIZE_def
        split: sum.splits if_splits option.splits)
qed

text \<open>
  Claim C4, as amended.  Every file that \<open>encryptStream\<close> produces consists of, in
  order from its first byte: the length of the header as a u32 in the byte order of the
  machine; then the header, which is the u32 little-endian magic \<open>0x43525950\<close>, the u16
  little-endian version 1, the u16 little-endian algorithm tag 1, the u32 little-endian
  length of the textual KeyId followed by its bytes, the length-prefixed wrapped DEK,
  the length-prefixed 12-byte IV and the length-prefixed 16-byte tag, the u64
  little-endian size of the plaintext and the u32 little-endian chunk size; and finally
  the ciphertext bytes.  Lengths and sizes are written modulo the width of their field.
\<close>

theorem file_envelope_layout:
  assumes "encryptStream env input kek input_size = (Inr (), out)"
  shows "\<exists>dek wrapped r.
     generateDEK (dek_rand env) = Inr dek
     \<and> wrapDEK env dek kek = Inr wrapped
     \<and> encryptGCM (fes_evp env) (data_iv_rand env) (read_input input input_size) dek [] = Inr r
     \<and> length (iv r) = 12 \<and> length (tag r) = 16
     \<and> (let id_bytes = string_bytes (KeyId_toString kek);
             hdr = le_bytes 4 0x43525950 @ le_bytes 2 1 @ le_bytes 2 1
                 @ le_bytes 4 (length id_bytes mod 2 ^ 32) @ id_bytes
                 @ le_bytes 4 (length wrapped mod 2 ^ 32) @ wrapped
                 @ le_bytes 4 (length (iv r)) @ iv r
                 @ le_bytes 4 (length (tag r)) @ tag r
                 @ le_bytes 8 (length (read_input input input_size) mod 2 ^ 64)
                 @ le_bytes 4 (chunk_size_cfg env mod 2 ^ 32);
             size_prefix = le_bytes 4 (length hdr mod 2 ^ 32)
         in out = (case host_order env of LittleEndian \<Rightarrow> size_prefix | BigEndian \<Rightarrow> rev size_prefix)
                  @ hdr @ ciphertext r)"
proof -
  from assms obtain dek where dek: "generateDEK (dek_rand env) = Inr dek"
    by (auto simp: encryptStream_def split: sum.splits)
  from assms dek obtain wrapped where wrapped: "wrapDEK env dek kek = Inr wrapped"
    by (auto simp: encryptStream_def split: sum.splits)
  from assms dek wrapped obtain r where
    r: "encryptGCM (fes_evp env) (data_iv_rand env) (read_input input input_size) dek [] = Inr r"
    by (auto simp: encryptStream_def Let_def split: sum.splits)
  note l = encryptGCM_Inr_lengths[OF r]
  have small: "length (iv r) mod 4294967296 = length (iv r)"
    "length (tag r) mod 4294967296 = length (tag r)"
    using l by simp_all
  have u32: "\<And>n. write_u32 (of_nat n) = le_bytes 4 (n mod 2 ^ 32)"
    by (simp add: write_u32_le unat_of_nat)
  have u64: "\<And>n. write_u64 (of_nat n) = le_bytes 8 (n mod 2 ^ 64)"
    by (simp add: write_u64_le unat_of_nat)
  have magic: "write_u32 MAGIC = le_bytes 4 0x43525950"
    by (simp add: write_u32_le MAGIC_def)
  have ver: "write_u16 VERSION = le_bytes 2 1" "write_u16 1 = le_bytes 2 1"
    by (simp_all add: write_u16_le VERSION_def)
  have len_sb: "length (string_bytes (KeyId_toString kek)) = length (KeyId_toString kek)"
    by (simp add: string_bytes_def)
  have out: "out = native_u32 (host_order env)
                (of_nat (length (serialize
                   \<lparr>magic = MAGIC, hdr_version = VERSION, hdr_algorithm = 1,
                    key_id = kek, wrapped_dek = wrapped, hdr_iv = iv r, hdr_tag = tag r,
                    original_size = of_nat (length (read_input input input_size)),
                    chunk_size = of_nat (chunk_size_cfg env)\<rparr>)))
              @ serialize
                   \<lparr>magic = MAGIC, hdr_version = VERSION, hdr_algorithm = 1,
                    key_id = kek, wrapped_dek = wrapped, hdr_iv = iv r, hdr_tag = tag r,
                    original_size = of_nat (length (read_input input input_size)),
                    chunk_size = of_nat (chunk_size_cfg env)\<rparr>
              @ ciphertext r"
    using assms dek wrapped r by (simp add: encryptStream_def Let_def)
  have ser: "serialize
                   \<lparr>magic = MAGIC, hdr_version = VERSION, hdr_algorithm = 1,
                    key_id = kek, wrapped_dek = wrapped, hdr_iv = iv r, hdr_tag = tag r,
                    original_size = of_nat (length (read_input input input_size)),
                    chunk_size = of_nat (chunk_size_cfg env)\<rparr>
       = le_bytes 4 0x43525950 @ le_bytes 2 1 @ le_bytes 2 1
                 @ le_bytes 4 (length (string_bytes (KeyId_toString kek)) mod 2 ^ 32)
                 @ string_bytes (KeyId_toString kek)
                 @ le_bytes 4 (length wrapped mod 2 ^ 32) @ wrapped
                 @ le_bytes 4 (length (iv r)) @ iv r
                 @ le_bytes 4 (length (tag r)) @ tag r
                 @ le_bytes 8 (length (read_input input input_size) mod 2 ^ 64)
                 @ le_bytes 4 (chunk_size_cfg env mod 2 ^ 32)"
    by (simp add: serialize_def write_bytes_def u32 u64 magic ver len_sb Let_def small)
  have nat: "\<And>n. native_u32 (host_order env) (of_nat n) =
      (case host_order env of LittleEndian \<Rightarrow> le_bytes 4 (n mod 2 ^ 32)
       | BigEndian \<Rightarrow> rev (le_bytes 4 (n mod 2 ^ 32)))"
    by (simp add: native_u32_def u32 split: byte_order.splits)
  show ?thesis
    using dek wrapped r l out unfolding ser nat Let_def by blast
qed

lemma to_string_1: "to_string (Suc 0) = ''1''"
  by (simp add: to_string.simps digit_char_def char_of_def bit_Suc_0_iff)

lemma sample_kek_string: "KeyId_toString sample_kek = ''auth:k:1''"
  by (simp add: KeyId_toString_def sample_kek_def to_string_1)

lemma sample_kek_bytes: "string_bytes ''auth:k:1'' = [97, 117, 116, 104, 58, 107, 58, 49]"
  by (simp add: string_bytes_def)

lemma magic_bytes: "le_bytes 4 0x43525950 = [80, 89, 82, 67]"
  by (simp add: le_bytes_def upt_0_4)

lemma toy_mask_dek: "toy_mask (replicate 32 7) = replicate 32 93"
  by (simp add: toy_mask_def)

lemma toy_mask_plain: "toy_mask sample_plain = [241, 241]"
  by (simp add: toy_mask_def sample_plain_def)

lemma toy_encryptGCM:
  assumes "length P \<le> MAX_PLAINTEXT_SIZE" "length K = 32" "length n = 12"
  shows "encryptGCM toy_evp (Some n) P K [] =
     Inr \<lparr>ciphertext = toy_mask P, iv = n, tag = toy_tag K n [] (toy_mask P)\<rparr>"
  using assms
  by (simp add: encryptGCM_def encryptGCM_traced_def generateIV_def encryptGCMWithIV_traced_def
      guard_def validatePlaintextSize_def validateAADSize_def validateAESKeySize_def
      validateGCMIVSize_def MAX_AAD_SIZE_def getGCMCipher_def toy_evp_def
      fill_buffer_same_length GCM_IV_SIZE_def GCM_TAG_SIZE_def toy_tag_def)

lemma sample_dek: "generateDEK (dek_rand sample_fes_env) = Inr (replicate 32 7)"
  by (simp add: generateDEK_def sample_fes_env_def fill_buffer_same_length)

lemma xor_sum_replicate_double: "xor_sum (replicate (2 * k) b) = 0"
  by (induction k) (simp_all add: xor_sum_def)

lemma xor_sum_replicate_32: "xor_sum (replicate 32 b) = 0"
  using xor_sum_replicate_double [of 16 b] by simp

lemma sample_iv_sum: "xor_sum sample_iv = 12"
  by (simp add: xor_sum_def sample_iv_def)

lemma sample_wrapped:
  "wrapDEK sample_fes_env (replicate 32 7) sample_kek =
     Inr (sample_iv @ (12 # replicate 15 0) @ replicate 32 93)"
proof -
  have e: "encryptGCM toy_evp (Some sample_iv) (replicate 32 7) zero_key [] =
     Inr \<lparr>ciphertext = toy_mask (replicate 32 7), iv = sample_iv,
          tag = toy_tag zero_key sample_iv [] (toy_mask (replicate 32 7))\<rparr>"
    by (rule toy_encryptGCM) (simp_all add: MAX_PLAINTEXT_SIZE_def zero_key_def sample_iv_def)
  have t: "toy_tag zero_key sample_iv [] (replicate 32 93) = 12 # replicate 15 0"
    by (simp add: toy_tag_def zero_key_def xor_sum_append xor_sum_replicate_32 sample_iv_sum)
  show ?thesis
    by (simp add: wrapDEK_def sample_fes_env_def e toy_mask_dek t)
qed

lemma sample_payload:
  "encryptGCM toy_evp (Some sample_iv) sample_plain (replicate 32 7) [] =
     Inr \<lparr>ciphertext = [241, 241], iv = sample_iv, tag = 12 # replicate 15 0\<rparr>"
proof -
  have e: "encryptGCM toy_evp (Some sample_iv) sample_plain (replicate 32 7) [] =
     Inr \<lparr>ciphertext = toy_mask sample_plain, iv = sample_iv,
          tag = toy_tag (replicate 32 7) sample_iv [] (toy_mask sample_plain)\<rparr>"
    by (rule toy_encryptGCM) (simp_all add: MAX_PLAINTEXT_SIZE_def sample_plain_def sample_iv_def)
  have t: "toy_tag (replicate 32 7) sample_iv [] [241, 241] = 12 # replicate 15 0"
  proof -
    have "xor_sum [241, 241] = 0" by (simp add: xor_sum_def)
    then show ?thesis
      by (simp add: toy_tag_def xor_sum_append xor_sum_replicate_32 sample_iv_sum)
  qed
  show ?thesis
    unfolding e toy_mask_plain t by simp
qed

lemma replicate_numeral_unfold:
  "replicate (numeral k) x = x # replicate (pred_numeral k) x"
  by (simp add: numeral_eq_Suc)

lemma le_bytes_4: "le_bytes 4 n = [of_nat (n mod 256), of_nat (n div 256 mod 256),
    of_nat (n div 65536 mod 256), of_nat (n div 16777216 mod 256)]"
  by (simp add: le_bytes_def upt_0_4)

lemma le_bytes_2: "le_bytes 2 n = [of_nat (n mod 256), of_nat (n div 256 mod 256)]"
  by (simp add: le_bytes_def upt_0_2)

lemma le_bytes_8_small: "n < 256 \<Longrightarrow> le_bytes 8 n = of_nat n # replicate 7 0"
  by (simp add: le_bytes_def upt_0_8 replicate_numeral_unfold)

lemma sample_header:
  "serialize \<lparr>magic = MAGIC, hdr_version = VERSION, hdr_algorithm = 1,
      key_id = sample_kek,
      wrapped_dek = sample_iv @ (12 # replicate 15 0) @ replicate 32 93,
      hdr_iv = sample_iv, hdr_tag = 12 # replicate 15 0,
      original_size = 2, chunk_size = 65536\<rparr>
   = take 132 (drop 4 sample_envelope)"
  by (simp add: serialize_def write_bytes_def write_u32_le write_u16_le write_u64_le
      le_bytes_4 le_bytes_2 le_bytes_8_small MAGIC_def VERSION_def
      sample_kek_string sample_kek_bytes sample_iv_def sample_envelope_def
      replicate_numeral_unfold)

lemma sample_run:
  "encryptStream sample_fes_env sample_plain sample_kek 0 = (Inr (), sample_envelope)"
proof -
  have p: "read_input sample_plain 0 = sample_plain" by (simp add: read_input_def)
  have f: "fes_evp sample_fes_env = toy_evp" "data_iv_rand sample_fes_env = Some sample_iv"
    "chunk_size_cfg sample_fes_env = 65536" "host_order sample_fes_env = LittleEndian"
    by (simp_all add: sample_fes_env_def)
  have l: "length sample_plain = 2" by (simp add: sample_plain_def)
  have len: "length (take 132 (drop 4 sample_envelope)) = 132"
    by (simp add: sample_envelope_def)
  have split: "sample_envelope = [132, 0, 0, 0] @ take 132 (drop 4 sample_envelope) @ [241, 241]"
    by (simp add: sample_envelope_def)
  have n: "native_u32 LittleEndian 132 = [132, 0, 0, 0]"
    by (simp add: native_u32_def write_u32_le le_bytes_4)
  let ?H = "\<lparr>magic = MAGIC, hdr_version = VERSION, hdr_algorithm = 1,
      key_id = sample_kek,
      wrapped_dek = sample_iv @ (12 # replicate 15 0) @ replicate 32 93,
      hdr_iv = sample_iv, hdr_tag = 12 # replicate 15 0,
      original_size = 2, chunk_size = 65536\<rparr>"
  have "encryptStream sample_fes_env sample_plain sample_kek 0 =
      (Inr (), native_u32 LittleEndian (of_nat (length (serialize ?H))) @ serialize ?H @ [241, 241])"
    unfolding encryptStream_def sample_dek
    by (simp add: sample_wrapped p f sample_payload l Let_def)
  also have "\<dots> = (Inr (), [132, 0, 0, 0] @ take 132 (drop 4 sample_envelope) @ [241, 241])"
    unfolding sample_header len by (simp add: n)
  finally show ?thesis using split by simp
qed

text \<open>
  Claim C4 as stated fails: the first four bytes of the file are the length of the
  header (here 132), written by \<open>encryptStream\<close> before the header; the magic number
  comes at offset 4.
\<close>

theorem file_envelope_counterexample:
  "encryptStream sample_fes_env sample_plain sample_kek 0 = (Inr (), sample_envelope)
   \<and> take 4 sample_envelope = [132, 0, 0, 0]
   \<and> take 4 sample_envelope \<noteq> le_bytes 4 0x43525950
   \<and> take 4 (drop 4 sample_envelope) = le_bytes 4 0x43525950"
proof -
  have a: "take 4 sample_envelope = [132, 0, 0, 0]" by (simp add: sample_envelope_def)
  have m: "le_bytes 4 0x43525950 = [80, 89, 82, 67]" by (simp add: le_bytes_4)
  have b: "take 4 (drop 4 sample_envelope) = [80, 89, 82, 67]" by (simp add: sample_envelope_def)
  show ?thesis using sample_run a b unfolding m by simp
qed

theorem file_envelope_layout_witness:
  "encryptStream sample_fes_env sample_plain sample_kek 0 = (Inr (), sample_envelope)
   \<and> (\<exists>dek wrapped r.
     generateDEK (dek_rand sample_fes_env) = Inr dek
     \<and> wrapDEK sample_fes_env dek sample_kek = Inr wrapped
     \<and> encryptGCM (fes_evp sample_fes_env) (data_iv_rand sample_fes_env)
          (read_input sample_plain 0) dek [] = Inr r
     \<and> length (iv r) = 12 \<and> length (tag r) = 16
     \<and> (let id_bytes = string_bytes (KeyId_toString sample_kek);
             hdr = le_bytes 4 0x43525950 @ le_bytes 2 1 @ le_bytes 2 1
                 @ le_bytes 4 (length id_bytes mod 2 ^ 32) @ id_bytes
                 @ le_bytes 4 (length wrapped mod 2 ^ 32) @ wrapped
                 @ le_bytes 4 (length (iv r)) @ iv r
                 @ le_bytes 4 (length (tag r)) @ tag r
                 @ le_bytes 8 (length (read_input sample_plain 0) mod 2 ^ 64)
                 @ le_bytes 4 (chunk_size_cfg sample_fes_env mod 2 ^ 32);
             size_prefix = le_bytes 4 (length hdr mod 2 ^ 32)
         in sample_envelope =
              (case host_order sample_fes_env of
                 LittleEndian \<Rightarrow> size_prefix | BigEndian \<Rightarrow> rev size_prefix)
              @ hdr @ ciphertext r))"
  using file_envelope_layout [OF sample_run] sample_run by (rule conjI [rotated])

section \<open>Verification: KeyId parsing\<close>

subsection \<open>Decimal digits\<close>

lemma of_char_digit_char: "d < 10 \<Longrightarrow> (of_char (digit_char d) :: nat) = 48 + d"
  by (simp add: digit_char_def)

lemma is_digit_digit_char: "d < 10 \<Longrightarrow> is_digit (digit_char d)"
  by (simp add: is_digit_def of_char_digit_char)

lemma digit_value_digit_char: "d < 10 \<Longrightarrow> digit_value (digit_char d) = d"
  by (simp add: digit_value_def of_char_digit_char)

lemma is_digit_not_colon: "is_digit c \<Longrightarrow> c \<noteq> CHR '':''"
  by (auto simp: is_digit_def)

lemma is_digit_not_space: "is_digit c \<Longrightarrow> \<not> is_space c"
  by (auto simp: is_digit_def is_space_def)

lemma is_digit_not_sign: "is_digit c \<Longrightarrow> c \<noteq> CHR ''-'' \<and> c \<noteq> CHR ''+''"
  by (auto simp: is_digit_def)

lemma to_string_digits: "c \<in> set (to_string n) \<Longrightarrow> is_digit c"
proof (induction n arbitrary: c rule: to_string.induct)
  case (1 n)
  show ?case
  proof (cases "n < 10")
    case True
    with "1.prems" show ?thesis
      by (subst (asm) to_string.simps) (simp add: is_digit_digit_char)
  next
    case False
    with "1.prems" have "c \<in> set (to_string (n div 10)) \<or> c = digit_char (n mod 10)"
      by (subst (asm) to_string.simps) auto
    with "1.IH"[OF False] show ?thesis
      by (auto simp: is_digit_digit_char)
  qed
qed

lemma to_string_nonempty: "to_string n \<noteq> []"
  by (subst to_string.simps) simp

lemma decimal_value_snoc: "decimal_value (ds @ [c]) = decimal_value ds * 10 + digit_value c"
  by (simp add: decimal_value_def)

lemma decimal_value_to_string: "decimal_value (to_string n) = n"
proof (induction n rule: to_string.induct)
  case (1 n)
  show ?case
  proof (cases "n < 10")
    case True
    then show ?thesis
      by (subst to_string.simps) (simp add: decimal_value_def digit_value_digit_char)
  next
    case False
    have "decimal_value (to_string n)
        = decimal_value (to_string (n div 10)) * 10 + digit_value (digit_char (n mod 10))"
      using False by (subst to_string.simps) (simp add: decimal_value_snoc)
    also have "\<dots> = (n div 10) * 10 + n mod 10"
      using "1.IH"[OF False] by (simp add: digit_value_digit_char)
    finally show ?thesis by simp
  qed
qed


lemma to_string_colon_free: "CHR '':'' \<notin> set (to_string n)"
  using to_string_digits is_digit_not_colon by blast

lemma stoul_digits:
  assumes "ds \<noteq> []" and "\<forall>c \<in> set ds. is_digit c"
  shows "stoul ds = (if decimal_value ds > ULONG_MAX then None else Some (decimal_value ds))"
proof -
  from assms obtain c cs where ds: "ds = c # cs" by (cases ds) auto
  with assms have c: "is_digit c" by simp
  have d: "dropWhile is_space ds = ds"
    using c by (simp add: ds is_digit_not_space)
  have t: "takeWhile is_digit ds = ds"
    using assms(2) by (simp add: takeWhile_eq_all_conv)
  have h: "hd ds \<noteq> CHR ''-''" "hd ds \<noteq> CHR ''+''"
    using c is_digit_not_sign by (auto simp: ds)
  show ?thesis
    using assms(1) by (simp add: stoul_def d t h Let_def)
qed

lemma stoul_to_string: "n < 2 ^ 64 \<Longrightarrow> stoul (to_string n) = Some n"
  using stoul_digits[of "to_string n"] to_string_nonempty[of n] to_string_digits[of _ n]
  by (simp add: decimal_value_to_string ULONG_MAX_def)

subsection \<open>Splitting at colons\<close>

lemma getline_parts_no_colon:
  "CHR '':'' \<notin> set s \<Longrightarrow>
     getline_parts s cur = (if rev cur @ s = [] then [] else [rev cur @ s])"
  by (induction s arbitrary: cur) auto

lemma getline_parts_colon:
  "CHR '':'' \<notin> set a \<Longrightarrow>
     getline_parts (a @ CHR '':'' # rest) cur = (rev cur @ a) # getline_parts rest []"
  by (induction a arbitrary: cur) auto

lemma split_at_first_colon:
  "CHR '':'' \<in> set s \<Longrightarrow> \<exists>a rest. s = a @ CHR '':'' # rest \<and> CHR '':'' \<notin> set a"
  by (metis split_list_first)

lemma colon_split_unique:
  "CHR '':'' \<notin> set a \<Longrightarrow> CHR '':'' \<notin> set b \<Longrightarrow>
     a @ CHR '':'' # r = b @ CHR '':'' # r' \<Longrightarrow> a = b \<and> r = r'"
proof (induction a arbitrary: b)
  case Nil
  then show ?case by (cases b) auto
next
  case (Cons x a)
  then show ?case by (cases b) auto
qed

lemma getline_parts_Nil_iff: "getline_parts s [] = [] \<longleftrightarrow> s = []"
proof (cases "CHR '':'' \<in> set s")
  case True
  then obtain a rest where "s = a @ CHR '':'' # rest" "CHR '':'' \<notin> set a"
    using split_at_first_colon by blast
  then show ?thesis by (simp add: getline_parts_colon)
next
  case False
  then show ?thesis by (simp add: getline_parts_no_colon)
qed

lemma getline_parts_single:
  "getline_parts s [] = [p] \<longleftrightarrow>
     CHR '':'' \<notin> set p \<and> ((s = p \<and> p \<noteq> []) \<or> s = p @ '':'')"
proof (cases "CHR '':'' \<in> set s")
  case True
  then obtain a rest where s: "s = a @ CHR '':'' # rest" and a: "CHR '':'' \<notin> set a"
    using split_at_first_colon by blast
  have "getline_parts s [] = [p] \<longleftrightarrow> a = p \<and> rest = []"
    by (simp add: s getline_parts_colon[OF a] getline_parts_Nil_iff)
  also have "\<dots> \<longleftrightarrow> CHR '':'' \<notin> set p \<and> ((s = p \<and> p \<noteq> []) \<or> s = p @ '':'')"
    using a s colon_split_unique[of a p rest "[]"] by auto
  finally show ?thesis .
next
  case False
  then show ?thesis by (auto simp: getline_parts_no_colon)
qed

lemma getline_parts_cons:
  "getline_parts s [] = p # ps \<Longrightarrow> ps \<noteq> [] \<Longrightarrow>
     CHR '':'' \<notin> set p \<and> (\<exists>rest. s = p @ CHR '':'' # rest \<and> getline_parts rest [] = ps)"
proof -
  assume g: "getline_parts s [] = p # ps" and ps: "ps \<noteq> []"
  have "CHR '':'' \<in> set s"
  proof (rule ccontr)
    assume "CHR '':'' \<notin> set s"
    with g ps show False by (simp add: getline_parts_no_colon split: if_splits)
  qed
  then obtain a rest where s: "s = a @ CHR '':'' # rest" and a: "CHR '':'' \<notin> set a"
    using split_at_first_colon by blast
  with g show ?thesis by (simp add: getline_parts_colon)
qed

lemma getline_parts_three:
  "getline_parts s [] = [a, b, c] \<longleftrightarrow>
     CHR '':'' \<notin> set a \<and> CHR '':'' \<notin> set b \<and> CHR '':'' \<notin> set c
     \<and> ((s = a @ '':'' @ b @ '':'' @ c \<and> c \<noteq> []) \<or> s = a @ '':'' @ b @ '':'' @ c @ '':'')"
proof
  assume g: "getline_parts s [] = [a, b, c]"
  from getline_parts_cons[OF g] obtain r1 where a: "CHR '':'' \<notin> set a"
    and s: "s = a @ CHR '':'' # r1" and g1: "getline_parts r1 [] = [b, c]" by auto
  from getline_parts_cons[OF g1] obtain r2 where b: "CHR '':'' \<notin> set b"
    and r1: "r1 = b @ CHR '':'' # r2" and g2: "getline_parts r2 [] = [c]" by auto
  from g2 have "CHR '':'' \<notin> set c \<and> ((r2 = c \<and> c \<noteq> []) \<or> r2 = c @ '':'')"
    by (simp add: getline_parts_single)
  with a b s r1 show "CHR '':'' \<notin> set a \<and> CHR '':'' \<notin> set b \<and> CHR '':'' \<notin> set c
     \<and> ((s = a @ '':'' @ b @ '':'' @ c \<and> c \<noteq> []) \<or> s = a @ '':'' @ b @ '':'' @ c @ '':'')"
    by auto
next
  assume h: "CHR '':'' \<notin> set a \<and> CHR '':'' \<notin> set b \<and> CHR '':'' \<notin> set c
     \<and> ((s = a @ '':'' @ b @ '':'' @ c \<and> c \<noteq> []) \<or> s = a @ '':'' @ b @ '':'' @ c @ '':'')"
  then have a: "CHR '':'' \<notin> set a" and b: "CHR '':'' \<notin> set b" and c: "CHR '':'' \<notin> set c"
    by auto
  from h consider "s = a @ CHR '':'' # b @ CHR '':'' # c" "c \<noteq> []"
    | "s = a @ CHR '':'' # b @ CHR '':'' # c @ [CHR '':'']" by auto
  then show "getline_parts s [] = [a, b, c]"
  proof cases
    case 1
    then show ?thesis
      by (simp add: getline_parts_colon[OF a] getline_parts_colon[OF b] getline_parts_no_colon[OF c])
  next
    case 2
    then show ?thesis
      using getline_parts_colon[OF c, of "[]" "[]"]
      by (simp add: getline_parts_colon[OF a] getline_parts_colon[OF b])
  qed
qed

lemma KeyId_parse_Inr_iff:
  "KeyId_parse s = Inr k \<longleftrightarrow>
     (\<exists>a b c v. getline_parts s [] = [a, b, c] \<and> stoul c = Some v
        \<and> k = \<lparr>namespace_prefix = a, id' = b, version = of_nat v\<rparr>)"
proof
  assume p: "KeyId_parse s = Inr k"
  then have l: "length (getline_parts s []) = 3"
    by (auto simp: KeyId_parse_def Let_def Err_def split: if_splits)
  then obtain a b c where g: "getline_parts s [] = [a, b, c]"
    by (cases "getline_parts s []"; cases "tl (getline_parts s [])";
        cases "tl (tl (getline_parts s []))") auto
  with p show "\<exists>a b c v. getline_parts s [] = [a, b, c] \<and> stoul c = Some v
        \<and> k = \<lparr>namespace_prefix = a, id' = b, version = of_nat v\<rparr>"
    by (auto simp: KeyId_parse_def Let_def Err_def split: option.splits)
next
  assume "\<exists>a b c v. getline_parts s [] = [a, b, c] \<and> stoul c = Some v
        \<and> k = \<lparr>namespace_prefix = a, id' = b, version = of_nat v\<rparr>"
  then show "KeyId_parse s = Inr k"
    by (auto simp: KeyId_parse_def Let_def)
qed

lemma stoul_Nil: "stoul [] = None"
  by (simp add: stoul_def)

lemma KeyId_parse_toString:
  assumes "CHR '':'' \<notin> set (namespace_prefix k)" and "CHR '':'' \<notin> set (id' k)"
  shows "KeyId_parse (KeyId_toString k) = Inr k"
proof -
  let ?v = "to_string (unat (version k))"
  have g: "getline_parts (KeyId_toString k) [] = [namespace_prefix k, id' k, ?v]"
    unfolding KeyId_toString_def getline_parts_three
    using assms to_string_colon_free to_string_nonempty by simp
  have "unat (version k) < 2 ^ 32"
    using unsigned_less[of "version k", where 'a = nat] by simp
  then have "unat (version k) < 2 ^ 64" by simp
  then have st: "stoul ?v = Some (unat (version k))" by (rule stoul_to_string)
  have "KeyId_parse (KeyId_toString k)
      = Inr \<lparr>namespace_prefix = namespace_prefix k, id' = id' k,
             version = of_nat (unat (version k))\<rparr>"
    unfolding KeyId_parse_Inr_iff using g st by blast
  then show ?thesis by simp
qed

lemma length_getline_parts:
  "length (getline_parts s cur) =
     count_list s CHR '':'' +
       (if (s = [] \<and> cur = []) \<or> (s \<noteq> [] \<and> last s = CHR '':'') then 0 else 1)"
  by (induction s arbitrary: cur) auto

lemma set_tl_subset: "set (tl xs) \<subseteq> set xs"
  by (cases xs) auto

lemma word_pos_unat: "unat (w :: 32 word) = n \<Longrightarrow> (0 < w) = (n \<noteq> 0)"
  by (auto simp: word_gt_0 unat_gt_0)

lemma stoul_no_digit:
  assumes "\<forall>ch \<in> set c. \<not> is_digit ch"
  shows "stoul c = None"
proof -
  let ?s1 = "dropWhile is_space c"
  let ?s2 = "if ?s1 \<noteq> [] \<and> (hd ?s1 = CHR ''-'' \<or> hd ?s1 = CHR ''+'') then tl ?s1 else ?s1"
  have "set ?s1 \<subseteq> set c" by (rule set_dropWhileD[THEN subsetI])
  moreover have "set ?s2 \<subseteq> set ?s1" using set_tl_subset[of ?s1] by simp
  ultimately have "\<forall>ch \<in> set ?s2. \<not> is_digit ch" using assms by blast
  then have "takeWhile is_digit ?s2 = []" by (cases ?s2) auto
  then show ?thesis by (simp add: stoul_def Let_def)
qed

lemma unat_version_of_nat:
  "n < 2 ^ 32 \<Longrightarrow> unat (of_nat n :: 32 word) = n"
  by (simp add: unat_of_nat)

text \<open>
  Claim C5, as amended.  \<open>KeyId::parse\<close> accepts every string
  \<open>namespace:id:version\<close> in which namespace and id are any strings without a colon
  and version is a non-empty string of decimal digits whose value is below \<open>2^32\<close>, and
  returns the KeyId made of the two fields as they are and of that value; the result
  passes \<open>KeyId::isValid\<close> exactly when namespace and id are non-empty and the value is
  not 0, so an empty namespace, an id that is no canonical UUID and version 0 are all
  accepted by \<open>parse\<close>.  In particular the text that \<open>toString\<close> writes for a KeyId with
  colon-free fields is parsed back to that KeyId.  \<open>parse\<close> returns the error
  \<open>Invalid KeyId format\<close> for every string that does not end in a colon and whose number
  of colons is not two, and for every \<open>namespace:id:\<close> with an empty version; it returns
  \<open>Invalid version number\<close> for every \<open>namespace:id:version\<close> of colon-free fields
  whose version is non-empty and holds no decimal digit.
\<close>

theorem keyid_parse_acceptance:
  "(CHR '':'' \<notin> set a \<and> CHR '':'' \<notin> set b \<and> c \<noteq> [] \<and> (\<forall>ch \<in> set c. is_digit ch)
      \<and> decimal_value c < 2 ^ 32 \<longrightarrow>
      KeyId_parse (a @ '':'' @ b @ '':'' @ c) =
        Inr \<lparr>namespace_prefix = a, id' = b, version = of_nat (decimal_value c)\<rparr>
      \<and> unat (of_nat (decimal_value c) :: 32 word) = decimal_value c
      \<and> (KeyId_isValid \<lparr>namespace_prefix = a, id' = b, version = of_nat (decimal_value c)\<rparr>
           \<longleftrightarrow> a \<noteq> [] \<and> b \<noteq> [] \<and> decimal_value c \<noteq> 0))
   \<and> (CHR '':'' \<notin> set (namespace_prefix k) \<and> CHR '':'' \<notin> set (id' k) \<longrightarrow>
        KeyId_parse (KeyId_toString k) = Inr k)
   \<and> ((s = [] \<or> last s \<noteq> CHR '':'') \<and> count_list s CHR '':'' \<noteq> 2 \<longrightarrow>
        KeyId_parse s = Err INVALID_INPUT ''Invalid KeyId format'')
   \<and> (CHR '':'' \<notin> set a' \<and> CHR '':'' \<notin> set b' \<longrightarrow>
        KeyId_parse (a' @ '':'' @ b' @ '':'') = Err INVALID_INPUT ''Invalid KeyId format'')
   \<and> (CHR '':'' \<notin> set a' \<and> CHR '':'' \<notin> set b' \<and> CHR '':'' \<notin> set c' \<and> c' \<noteq> []
      \<and> (\<forall>ch \<in> set c'. \<not> is_digit ch) \<longrightarrow>
        KeyId_parse (a' @ '':'' @ b' @ '':'' @ c') = Err INVALID_INPUT ''Invalid version number'')"
proof (intro conjI impI)
  assume h: "CHR '':'' \<notin> set a \<and> CHR '':'' \<notin> set b \<and> c \<noteq> [] \<and> (\<forall>ch \<in> set c. is_digit ch)
      \<and> decimal_value c < 2 ^ 32"
  then have cf: "CHR '':'' \<notin> set c" using is_digit_not_colon by blast
  have "decimal_value c \<le> ULONG_MAX" using h by (simp add: ULONG_MAX_def)
  then have st: "stoul c = Some (decimal_value c)" using h by (simp add: stoul_digits)
  have "getline_parts (a @ '':'' @ b @ '':'' @ c) [] = [a, b, c]"
    unfolding getline_parts_three using h cf by blast
  with st show "KeyId_parse (a @ '':'' @ b @ '':'' @ c) =
        Inr \<lparr>namespace_prefix = a, id' = b, version = of_nat (decimal_value c)\<rparr>"
    unfolding KeyId_parse_Inr_iff by blast
  show u: "unat (of_nat (decimal_value c) :: 32 word) = decimal_value c"
    using h by (simp add: unat_version_of_nat)
  have "(of_nat (decimal_value c) :: 32 word) > 0 \<longleftrightarrow> decimal_value c \<noteq> 0"
    using u by (rule word_pos_unat)
  then show "KeyId_isValid \<lparr>namespace_prefix = a, id' = b, version = of_nat (decimal_value c)\<rparr>
           \<longleftrightarrow> a \<noteq> [] \<and> b \<noteq> [] \<and> decimal_value c \<noteq> 0"
    by (simp add: KeyId_isValid_def)
next
  assume "CHR '':'' \<notin> set (namespace_prefix k) \<and> CHR '':'' \<notin> set (id' k)"
  then show "KeyId_parse (KeyId_toString k) = Inr k"
    using KeyId_parse_toString by blast
next
  assume h: "(s = [] \<or> last s \<noteq> CHR '':'') \<and> count_list s CHR '':'' \<noteq> 2"
  then have "length (getline_parts s []) \<noteq> 3"
    by (auto simp: length_getline_parts)
  then show "KeyId_parse s = Err INVALID_INPUT ''Invalid KeyId format''"
    by (simp add: KeyId_parse_def Let_def)
next
  assume h: "CHR '':'' \<notin> set a' \<and> CHR '':'' \<notin> set b'"
  then have "count_list (a' @ '':'' @ b' @ '':'') CHR '':'' = 2"
    by (simp add: count_list_0_iff)
  then have "length (getline_parts (a' @ '':'' @ b' @ '':'') []) = 2"
    by (simp add: length_getline_parts)
  then show "KeyId_parse (a' @ '':'' @ b' @ '':'') = Err INVALID_INPUT ''Invalid KeyId format''"
    by (simp add: KeyId_parse_def Let_def)
next
  assume h: "CHR '':'' \<notin> set a' \<and> CHR '':'' \<notin> set b' \<and> CHR '':'' \<notin> set c' \<and> c' \<noteq> []
      \<and> (\<forall>ch \<in> set c'. \<not> is_digit ch)"
  then have g: "getline_parts (a' @ '':'' @ b' @ '':'' @ c') [] = [a', b', c']"
    unfolding getline_parts_three by blast
  have "stoul c' = None" using h stoul_no_digit by blast
  with g show "KeyId_parse (a' @ '':'' @ b' @ '':'' @ c') =
      Err INVALID_INPUT ''Invalid version number''"
    by (simp add: KeyId_parse_def Let_def)
qed

text \<open>
  Claim C5 as stated fails: \<open>parse\<close> accepts \<open>:x:0\<close>, whose namespace is empty, whose
  id is not a canonical UUID and whose version is 0.
\<close>

theorem keyid_parse_counterexample:
  "KeyId_parse '':x:0'' = Inr \<lparr>namespace_prefix = '''', id' = ''x'', version = 0\<rparr>
   \<and> \<not> KeyId_isValid \<lparr>namespace_prefix = '''', id' = ''x'', version = 0\<rparr>
   \<and> \<not> is_canonical_uuid ''x''"
proof -
  have s: "stoul ''0'' = Some 0"
    by (simp add: stoul_def is_space_def is_digit_def decimal_value_def digit_value_def
        ULONG_MAX_def Let_def)
  have "KeyId_parse '':x:0'' = Inr \<lparr>namespace_prefix = '''', id' = ''x'', version = 0\<rparr>"
    by (simp add: KeyId_parse_def s Let_def)
  then show ?thesis
    by (simp add: KeyId_isValid_def is_canonical_uuid_def)
qed
theorem keyid_parse_acceptance_witness:
  "KeyId_parse ''auth:550e8400-e29b-41d4-a716-446655440000:2'' =
     Inr \<lparr>namespace_prefix = ''auth'', id' = ''550e8400-e29b-41d4-a716-446655440000'',
          version = 2\<rparr>
   \<and> KeyId_isValid \<lparr>namespace_prefix = ''auth'',
        id' = ''550e8400-e29b-41d4-a716-446655440000'', version = 2\<rparr>
   \<and> KeyId_parse (KeyId_toString sample_kek) = Inr sample_kek
   \<and> KeyId_parse ''auth:k'' = Err INVALID_INPUT ''Invalid KeyId format''
   \<and> KeyId_parse ''auth:k:'' = Err INVALID_INPUT ''Invalid KeyId format''
   \<and> KeyId_parse ''auth:k:one'' = Err INVALID_INPUT ''Invalid version number''"
proof -
  note t = keyid_parse_acceptance [of "''auth''" "''550e8400-e29b-41d4-a716-446655440000''"
      "''2''" sample_kek "''auth:k''" "''auth''" "''k''" "''one''"]
  have d: "decimal_value ''2'' = 2"
    by (simp add: decimal_value_def digit_value_def)
  have h1: "CHR '':'' \<notin> set ''auth''
      \<and> CHR '':'' \<notin> set ''550e8400-e29b-41d4-a716-446655440000''
      \<and> ''2'' \<noteq> [] \<and> (\<forall>ch \<in> set ''2''. is_digit ch) \<and> decimal_value ''2'' < 2 ^ 32"
    by (simp add: d is_digit_def)
  have h2: "CHR '':'' \<notin> set (namespace_prefix sample_kek) \<and> CHR '':'' \<notin> set (id' sample_kek)"
    by (simp add: sample_kek_def)
  have h3: "(''auth:k'' = [] \<or> last ''auth:k'' \<noteq> CHR '':'')
      \<and> count_list ''auth:k'' CHR '':'' \<noteq> 2"
    by simp
  have h4: "CHR '':'' \<notin> set ''auth'' \<and> CHR '':'' \<notin> set ''k''"
    by simp
  have h5: "CHR '':'' \<notin> set ''auth'' \<and> CHR '':'' \<notin> set ''k'' \<and> CHR '':'' \<notin> set ''one''
      \<and> ''one'' \<noteq> [] \<and> (\<forall>ch \<in> set ''one''. \<not> is_digit ch)"
    by (simp add: is_digit_def)
  from t [THEN conjunct1, rule_format, OF h1]
  have c1: "KeyId_parse ''auth:550e8400-e29b-41d4-a716-446655440000:2'' =
     Inr \<lparr>namespace_prefix = ''auth'', id' = ''550e8400-e29b-41d4-a716-446655440000'',
          version = 2\<rparr>"
    and c1': "KeyId_isValid \<lparr>namespace_prefix = ''auth'',
        id' = ''550e8400-e29b-41d4-a716-446655440000'', version = 2\<rparr>"
    by (simp_all add: d)
  from t [THEN conjunct2, THEN conjunct1, rule_format, OF h2]
  have c2: "KeyId_parse (KeyId_toString sample_kek) = Inr sample_kek" .
  from t [THEN conjunct2, THEN conjunct2, THEN conjunct1, rule_format, OF h3]
  have c3: "KeyId_parse ''auth:k'' = Err INVALID_INPUT ''Invalid KeyId format''" .
  from t [THEN conjunct2, THEN conjunct2, THEN conjunct2, THEN conjunct1, rule_format, OF h4]
  have c4: "KeyId_parse ''auth:k:'' = Err INVALID_INPUT ''Invalid KeyId format''" by simp
  from t [THEN conjunct2, THEN conjunct2, THEN conjunct2, THEN conjunct2, rule_format, OF h5]
  have c5: "KeyId_parse ''auth:k:one'' = Err INVALID_INPUT ''Invalid version number''" by simp
  from c1 c1' c2 c3 c4 c5 show ?thesis by (intro conjI)
qed

section \<open>Verification: key service\<close>

subsection \<open>Textual forms of key identifiers\<close>


lemma word_succ_neq: "(w :: 32 word) + 1 \<noteq> w"
  by simp




subsection \<open>The in-memory store\<close>

lemma InMemoryKeyStore_ops [simp]:
  "ks_store InMemoryKeyStore = InMemoryKeyStore_store"
  "ks_retrieve InMemoryKeyStore = InMemoryKeyStore_retrieve"
  "ks_remove InMemoryKeyStore = InMemoryKeyStore_remove"
  "ks_updateMetadata InMemoryKeyStore = InMemoryKeyStore_updateMetadata"
  by (simp_all add: InMemoryKeyStore_def)






subsection \<open>A run on concrete inputs\<close>




lemma sample_stored_metadata [simp]:
  "metadata (sample_stored_key k st) = sample_metadata k st"
  "state (sample_metadata k st) = st"
  "algorithm (sample_metadata k st) = AES_256_GCM"
  by (simp_all add: sample_stored_key_def sample_metadata_def)





subsection \<open>Stores that keep the contract\<close>








lemma GuardedKeyStore_ops [simp]:
  "ks_store GuardedKeyStore k v (keys, ro) = (Inr (), (keys(KeyId_toString k \<mapsto> v), ro))"
  "ks_retrieve GuardedKeyStore k (keys, ro) = InMemoryKeyStore_retrieve k keys"
  "ks_remove GuardedKeyStore k (keys, ro) =
     (fst (InMemoryKeyStore_remove k keys), (snd (InMemoryKeyStore_remove k keys), ro))"
  "ks_updateMetadata GuardedKeyStore k m (keys, ro) =
     (if KeyId_toString k \<in> set ro
      then (Err INTERNAL_ERROR ''Failed to open file for writing'', (keys, ro))
      else (fst (InMemoryKeyStore_updateMetadata k m keys),
            (snd (InMemoryKeyStore_updateMetadata k m keys), ro)))"
  by (simp_all add: GuardedKeyStore_def InMemoryKeyStore_store_def split: prod.splits)




subsection \<open>Key material and the key state\<close>

lemma getCached_invalidated [simp]:
  "getCachedKeyMaterial (invalidateCachedKey cache k) k = None"
  by (simp add: getCachedKeyMaterial_def invalidateCachedKey_def split: option.splits)

lemma decryptKeyMaterial_state [simp]:
  "decryptKeyMaterial evp mk (key\<lparr>metadata := md\<rparr>) = decryptKeyMaterial evp mk key"
  by (simp add: decryptKeyMaterial_def)





end
